theory Spec2Isabelle
  imports Main
begin

section \<open>JavaScript values\<close>

text \<open>
  A thrown JavaScript error, with the two properties the deployer inspects:
  \<open>err.name\<close> and \<open>err.message\<close>. \<open>new Error(msg)\<close> has the name \<open>Error\<close>.
\<close>

datatype js_error = JsError (err_name: string) (err_message: string)

definition new_Error :: "string \<Rightarrow> js_error" where
  "new_Error msg = JsError ''Error'' msg"

text \<open>
  An optional property of a JavaScript object is an \<open>option\<close>: \<open>None\<close> is
  \<open>undefined\<close>. Truthiness as the \<open>||\<close>, \<open>!\<close> and \<open>if\<close> of the source read it:
  the empty string and the number 0 are falsy, every array and object is truthy.
\<close>

definition truthy_str :: "string option \<Rightarrow> bool" where
  "truthy_str v = (case v of None \<Rightarrow> False | Some s \<Rightarrow> s \<noteq> [])"

definition truthy_num :: "int option \<Rightarrow> bool" where
  "truthy_num v = (case v of None \<Rightarrow> False | Some n \<Rightarrow> n \<noteq> 0)"

definition truthy_obj :: "'a option \<Rightarrow> bool" where
  "truthy_obj v = (case v of None \<Rightarrow> False | Some x \<Rightarrow> True)"

text \<open>\<open>v || d\<close> on a string, a number, an array.\<close>

definition or_str :: "string option \<Rightarrow> string \<Rightarrow> string" where
  "or_str v d = (case v of None \<Rightarrow> d | Some s \<Rightarrow> if s = [] then d else s)"

definition or_num :: "int option \<Rightarrow> int \<Rightarrow> int" where
  "or_num v d = (case v of None \<Rightarrow> d | Some n \<Rightarrow> if n = 0 then d else n)"

definition or_obj :: "'a option \<Rightarrow> 'a \<Rightarrow> 'a" where
  "or_obj v d = (case v of None \<Rightarrow> d | Some x \<Rightarrow> x)"

section \<open>The configuration\<close>

record trigger =
  queueArn :: string
  batchSize :: "int option"
  maxBatchingWindow :: "int option"
  enabled :: "bool option"

record config =
  functionName :: "string option"
  sourceDir :: "string option"
  roleArn :: "string option"
  includes_list :: "string list option"
  region :: "string option"
  profile :: "string option"
  runtime :: "string option"
  handler :: "string option"
  description :: "string option"
  timeout :: "int option"
  memorySize :: "int option"
  environment :: "(string \<times> string) list option"
  layers :: "string list option"
  sqsTriggers :: "trigger list option"

section \<open>The remote function client\<close>

record function_configuration =
  State :: "string option"
  LastUpdateStatus :: "string option"

record event_source_mapping =
  UUID :: string
  EventSourceArn :: string

text \<open>What a resolved \<open>send\<close> yields: an object whose properties may be absent.\<close>

record response =
  Configuration :: "function_configuration option"
  EventSourceMappings :: "event_source_mapping list option"

record function_settings =
  FunctionName :: "string option"
  Runtime :: string
  Handler :: string
  Description :: "string option"
  Timeout :: int
  MemorySize :: int
  Environment :: "(string \<times> string) list option"
  Layers :: "string list"

record create_request = function_settings +
  Role :: "string option"
  Code :: string

record mapping_settings =
  BatchSize :: int
  MaximumBatchingWindowInSeconds :: int
  Enabled :: bool

datatype command =
    GetFunction string
  | CreateFunction create_request
  | UpdateFunctionCode string string
  | UpdateFunctionConfiguration function_settings
  | ListEventSourceMappings string
  | CreateEventSourceMapping string string mapping_settings
  | UpdateEventSourceMapping string mapping_settings
  | DeleteEventSourceMapping string

text \<open>
  \<open>this.lambda.send(command)\<close> either throws at once, or returns a promise that is
  later resolved or rejected. Under \<open>await\<close> inside \<open>try\<close> the two failures are the same
  exception; where the promise is returned unawaited they are not.
\<close>

datatype outcome = Resolved response | Rejected js_error | Thrown js_error

text \<open>
  What a run does that can be seen from outside: a call of \<open>this.lambda.send\<close>, and an
  awaited \<open>setTimeout\<close> with its delay in milliseconds.
\<close>

datatype event = Send command | Sleep nat

text \<open>
  The surroundings of a run. The remote may answer a command in any way, depending on
  everything the run has sent and waited for so far; \<open>latency\<close> is the time that answer
  takes and \<open>overrun\<close> the time by which a timer fires late, both in milliseconds.
  \<open>loadConfig\<close> and \<open>archive\<close> stand for the configuration loader and for the archiver and
  package manager behind \<open>createZip\<close>.
\<close>

record env =
  respond :: "event list \<Rightarrow> command \<Rightarrow> outcome"
  latency :: "event list \<Rightarrow> command \<Rightarrow> nat"
  overrun :: "event list \<Rightarrow> nat"
  loadConfig :: "string option \<Rightarrow> js_error + config"
  archive :: "string \<Rightarrow> string list \<Rightarrow> js_error + string"

text \<open>
  The state a run threads through its steps: the events so far, the clock that
  \<open>Date.now()\<close> reads, the files by path, and the lines written by \<open>console.error\<close>.
  Progress messages (\<open>console.log\<close>) are left out.
\<close>

record world =
  trace :: "event list"
  now :: nat
  files :: "string \<Rightarrow> string option"
  stderr :: "string list"

definition send :: "env \<Rightarrow> command \<Rightarrow> world \<Rightarrow> outcome \<times> world" where
  "send e c w =
     (respond e (trace w) c,
      w\<lparr>trace := trace w @ [Send c], now := now w + latency e (trace w) c\<rparr>)"

definition awaited :: "outcome \<Rightarrow> js_error + response" where
  "awaited r = (case r of Resolved v \<Rightarrow> Inr v | Rejected err \<Rightarrow> Inl err | Thrown err \<Rightarrow> Inl err)"

definition setTimeout :: "env \<Rightarrow> nat \<Rightarrow> world \<Rightarrow> world" where
  "setTimeout e ms w =
     w\<lparr>trace := trace w @ [Sleep ms], now := now w + ms + overrun e (trace w)\<rparr>"

definition readFileSync :: "string \<Rightarrow> world \<Rightarrow> js_error + string" where
  "readFileSync p w =
     (case files w p of None \<Rightarrow> Inl (JsError ''Error'' (''ENOENT: no such file or directory, open '' @ p))
      | Some bytes \<Rightarrow> Inr bytes)"

section \<open>updateWithRetry\<close>

text \<open>
  The \<open>for\<close> loop of \<open>updateWithRetry\<close> (source lines 134 to 147) from iteration \<open>i\<close> on;
  \<open>Inr None\<close> is the \<open>undefined\<close> of leaving the loop at its end.
\<close>

function retry_loop :: "env \<Rightarrow> command \<Rightarrow> nat \<Rightarrow> world \<Rightarrow> (js_error + response option) \<times> world" where
  "retry_loop e c i w =
     (if i < 3 then
        (case send e c w of (r, w1) \<Rightarrow>
          (case awaited r of
             Inr v \<Rightarrow> (Inr (Some v), w1)
           | Inl err \<Rightarrow>
               if err_name err = ''ResourceConflictException'' \<and> i < 2
               then retry_loop e c (i + 1) (setTimeout e ((i + 1) * 30000) w1)
               else (Inl err, w1)))
      else (Inr None, w))"
  by pat_completeness auto
termination
  by (relation "measure (\<lambda>(e, c, i, w). 3 - i)") auto

definition updateWithRetry :: "env \<Rightarrow> command \<Rightarrow> world \<Rightarrow> (js_error + response option) \<times> world" where
  "updateWithRetry e c w = retry_loop e c 0 w"

section \<open>waitForFunctionReady\<close>

text \<open>How the \<open>try\<close>/\<open>catch\<close> statement of one iteration of the polling loop completes.\<close>

datatype completion = Return | Throw js_error | Fallthrough

text \<open>The \<open>try\<close> block (source lines 156 to 166), given the outcome of its \<open>send\<close>.\<close>

definition poll_try :: "outcome \<Rightarrow> completion" where
  "poll_try r =
     (case awaited r of
        Inl err \<Rightarrow> Throw err
      | Inr result \<Rightarrow>
          (let state = (case Configuration result of None \<Rightarrow> None | Some c \<Rightarrow> State c);
               lastUpdateStatus =
                 (case Configuration result of None \<Rightarrow> None | Some c \<Rightarrow> LastUpdateStatus c)
           in if state = Some ''Active'' \<and> lastUpdateStatus = Some ''Successful'' then Return
              else if lastUpdateStatus = Some ''Failed''
                   then Throw (new_Error ''Previous update failed'')
                   else Fallthrough))"

text \<open>The \<open>catch\<close> clause (source lines 168 to 173).\<close>

definition poll_catch :: "completion \<Rightarrow> completion" where
  "poll_catch c =
     (case c of
        Throw err \<Rightarrow> if err_message err = ''Previous update failed'' then Throw err else Fallthrough
      | Return \<Rightarrow> Return
      | Fallthrough \<Rightarrow> Fallthrough)"

text \<open>
  The \<open>while\<close> loop (source lines 154 to 176). Every iteration that does not leave the
  loop waits at least 3000 ms, so the loop ends: at the latest with the timeout error.
\<close>

function wait_loop ::
  "env \<Rightarrow> string \<Rightarrow> nat \<Rightarrow> nat \<Rightarrow> world \<Rightarrow> (js_error + unit) \<times> world" where
  "wait_loop e fn maxWaitMs startTime w =
     (if now w - startTime < maxWaitMs then
        (case send e (GetFunction fn) w of (r, w1) \<Rightarrow>
          (case poll_catch (poll_try r) of
             Return \<Rightarrow> (Inr (), w1)
           | Throw err \<Rightarrow> (Inl err, w1)
           | Fallthrough \<Rightarrow> wait_loop e fn maxWaitMs startTime (setTimeout e 3000 w1)))
      else (Inl (new_Error ''Timeout waiting for function to be ready''), w))"
  by pat_completeness auto
termination
  by (relation "measure (\<lambda>(e, f, maxWaitMs, startTime, w). startTime + maxWaitMs - now w)")
     (auto simp: send_def setTimeout_def)

definition waitForFunctionReady ::
  "env \<Rightarrow> string \<Rightarrow> nat \<Rightarrow> world \<Rightarrow> (js_error + unit) \<times> world" where
  "waitForFunctionReady e fn maxWaitMs w =
     wait_loop e fn maxWaitMs (now w) w"

section \<open>createFunction and updateFunctionSequential\<close>

definition createParams :: "config \<Rightarrow> string \<Rightarrow> create_request" where
  "createParams cfg zipBuffer =
     \<lparr>FunctionName = functionName cfg,
      Runtime = or_str (runtime cfg) ''nodejs22.x'',
      Handler = or_str (handler cfg) ''lambda.handler'',
      Description = Some (or_str (description cfg) ''Deployed with lambda-deployer''),
      Timeout = or_num (timeout cfg) 30,
      MemorySize = or_num (memorySize cfg) 128,
      Environment = (if truthy_obj (environment cfg) then environment cfg else None),
      Layers = or_obj (layers cfg) [],
      Role = roleArn cfg,
      Code = zipBuffer\<rparr>"

definition createFunction ::
  "env \<Rightarrow> config \<Rightarrow> string \<Rightarrow> world \<Rightarrow> (js_error + response) \<times> world" where
  "createFunction e cfg zipPath w =
     (case readFileSync zipPath w of
        Inl err \<Rightarrow> (Inl err, w)
      | Inr zipBuffer \<Rightarrow>
          (case send e (CreateFunction (createParams cfg zipBuffer)) w of
             (r, w1) \<Rightarrow> (awaited r, w1)))"

text \<open>The condition of the \<open>if\<close> at source line 195.\<close>

definition config_affecting :: "config \<Rightarrow> bool" where
  "config_affecting cfg =
     (truthy_obj (layers cfg) \<or> truthy_obj (environment cfg) \<or> truthy_num (timeout cfg)
      \<or> truthy_num (memorySize cfg) \<or> truthy_str (description cfg))"

definition configParams :: "string \<Rightarrow> config \<Rightarrow> function_settings" where
  "configParams fn cfg =
     \<lparr>FunctionName = Some fn,
      Runtime = or_str (runtime cfg) ''nodejs18.x'',
      Handler = or_str (handler cfg) ''lambda.handler'',
      Description = description cfg,
      Timeout = or_num (timeout cfg) 30,
      MemorySize = or_num (memorySize cfg) 128,
      Environment = (if truthy_obj (environment cfg) then environment cfg else None),
      Layers = or_obj (layers cfg) []\<rparr>"

definition updateFunctionSequential ::
  "env \<Rightarrow> string \<Rightarrow> string \<Rightarrow> config \<Rightarrow> world \<Rightarrow> (js_error + unit) \<times> world" where
  "updateFunctionSequential e fn zipPath cfg w =
     (case readFileSync zipPath w of
        Inl err \<Rightarrow> (Inl err, w)
      | Inr zipBuffer \<Rightarrow>
          (case updateWithRetry e (UpdateFunctionCode fn zipBuffer) w of
             (Inl err, w1) \<Rightarrow> (Inl err, w1)
           | (Inr _, w1) \<Rightarrow>
               if config_affecting cfg then
                 (case waitForFunctionReady e fn 120000 w1 of
                    (Inl err, w2) \<Rightarrow> (Inl err, w2)
                  | (Inr _, w2) \<Rightarrow>
                      (case updateWithRetry e
                              (UpdateFunctionConfiguration (configParams fn cfg)) w2 of
                         (Inl err, w3) \<Rightarrow> (Inl err, w3)
                       | (Inr _, w3) \<Rightarrow> (Inr (), w3)))
               else (Inr (), w1)))"

section \<open>updateEventSourceMappings\<close>

definition mappingSettings :: "trigger \<Rightarrow> mapping_settings" where
  "mappingSettings t =
     \<lparr>BatchSize = or_num (batchSize t) 10,
      MaximumBatchingWindowInSeconds = or_num (maxBatchingWindow t) 0,
      Enabled = (enabled t \<noteq> Some False)\<rparr>"

text \<open>\<open>existing.EventSourceMappings?.find(m => m.EventSourceArn === trigger.queueArn)\<close>\<close>

definition existingMapping :: "response \<Rightarrow> trigger \<Rightarrow> event_source_mapping option" where
  "existingMapping existing t =
     (case EventSourceMappings existing of
        None \<Rightarrow> None
      | Some ms \<Rightarrow> find (\<lambda>m. EventSourceArn m = queueArn t) ms)"

definition trigger_command :: "string \<Rightarrow> response \<Rightarrow> trigger \<Rightarrow> command" where
  "trigger_command fn existing t =
     (case existingMapping existing t of
        Some m \<Rightarrow> UpdateEventSourceMapping (UUID m) (mappingSettings t)
      | None \<Rightarrow> CreateEventSourceMapping (queueArn t) fn (mappingSettings t))"

text \<open>The first loop (source lines 226 to 254).\<close>

fun process_triggers ::
  "env \<Rightarrow> string \<Rightarrow> response \<Rightarrow> trigger list \<Rightarrow> world \<Rightarrow> (js_error + unit) \<times> world" where
  "process_triggers e fn existing [] w = (Inr (), w)"
| "process_triggers e fn existing (t # ts) w =
     (case send e (trigger_command fn existing t) w of (r, w1) \<Rightarrow>
       (case awaited r of
          Inl err \<Rightarrow> (Inl err, w1)
        | Inr _ \<Rightarrow> process_triggers e fn existing ts w1))"

text \<open>The second loop (source lines 258 to 266).\<close>

fun remove_mappings ::
  "env \<Rightarrow> string list \<Rightarrow> event_source_mapping list \<Rightarrow> world \<Rightarrow> (js_error + unit) \<times> world" where
  "remove_mappings e configuredArns [] w = (Inr (), w)"
| "remove_mappings e configuredArns (m # ms) w =
     (if EventSourceArn m \<notin> set configuredArns then
        (case send e (DeleteEventSourceMapping (UUID m)) w of (r, w1) \<Rightarrow>
          (case awaited r of
             Inl err \<Rightarrow> (Inl err, w1)
           | Inr _ \<Rightarrow> remove_mappings e configuredArns ms w1))
      else remove_mappings e configuredArns ms w)"

definition updateEventSourceMappings ::
  "env \<Rightarrow> string \<Rightarrow> trigger list \<Rightarrow> world \<Rightarrow> (js_error + unit) \<times> world" where
  "updateEventSourceMappings e fn triggers w =
     (if length triggers = 0 then (Inr (), w)
      else
        (case send e (ListEventSourceMappings fn) w of (r, w1) \<Rightarrow>
          (case awaited r of
             Inl err \<Rightarrow> (Inl err, w1)
           | Inr existing \<Rightarrow>
               (case process_triggers e fn existing triggers w1 of
                  (Inl err, w2) \<Rightarrow> (Inl err, w2)
                | (Inr _, w2) \<Rightarrow>
                    remove_mappings e (map queueArn triggers)
                      (or_obj (EventSourceMappings existing) []) w2))))"

section \<open>deploy\<close>

definition functionExists :: "env \<Rightarrow> string \<Rightarrow> world \<Rightarrow> (js_error + bool) \<times> world" where
  "functionExists e fn w =
     (case send e (GetFunction fn) w of (r, w1) \<Rightarrow>
       (case awaited r of
          Inr _ \<Rightarrow> (Inr True, w1)
        | Inl err \<Rightarrow>
            if err_name err = ''ResourceNotFoundException'' then (Inr False, w1)
            else (Inl err, w1)))"

text \<open>
  \<open>createZip\<close> is the packaging collaborator. What the archiver and the package manager
  do is the environment's \<open>archive\<close>: either the bytes of the finished zip, written to
  \<open>outputPath\<close> before the promise resolves, or the error the promise is rejected with,
  the output stream having been opened already.
\<close>

definition createZip ::
  "env \<Rightarrow> string \<Rightarrow> string \<Rightarrow> string list \<Rightarrow> world \<Rightarrow> (js_error + string) \<times> world" where
  "createZip e srcDir outputPath incl w =
     (case archive e srcDir incl of
        Inl err \<Rightarrow> (Inl err, w\<lparr>files := (files w)(outputPath \<mapsto> [])\<rparr>)
      | Inr bytes \<Rightarrow> (Inr outputPath, w\<lparr>files := (files w)(outputPath \<mapsto> bytes)\<rparr>))"

text \<open>
  \<open>path.join(sourceDir, name)\<close>: joining onto the empty path or onto \<open>.\<close> gives the name;
  other normalisation of the directory (\<open>..\<close>, repeated or trailing separators) is left out.
\<close>

definition path_join :: "string \<Rightarrow> string \<Rightarrow> string" where
  "path_join dir name = (if dir = [] \<or> dir = ''.'' then name else dir @ ''/'' @ name)"

text \<open>The \<open>try\<close> block of \<open>deploy\<close> (source lines 302 to 334).\<close>

definition sync_triggers :: "env \<Rightarrow> string \<Rightarrow> config \<Rightarrow> world \<Rightarrow> (js_error + unit) \<times> world" where
  "sync_triggers e fn cfg w =
     (case sqsTriggers cfg of
        None \<Rightarrow> (Inr (), w)
      | Some ts \<Rightarrow> updateEventSourceMappings e fn ts w)"

definition deploy_try ::
  "env \<Rightarrow> config \<Rightarrow> string \<Rightarrow> string \<Rightarrow> world \<Rightarrow> (js_error + unit) \<times> world" where
  "deploy_try e cfg fn zipPath w =
     (case functionExists e fn w of
        (Inl err, w1) \<Rightarrow> (Inl err, w1)
      | (Inr exists, w1) \<Rightarrow>
          if exists then
            (case updateFunctionSequential e fn zipPath cfg w1 of
               (Inl err, w2) \<Rightarrow> (Inl err, w2)
             | (Inr _, w2) \<Rightarrow> sync_triggers e fn cfg w2)
          else if \<not> truthy_str (roleArn cfg)
          then (Inl (new_Error ''roleArn is required for creating new functions''), w1)
          else
            (case createFunction e cfg zipPath w1 of
               (Inl err, w2) \<Rightarrow> (Inl err, w2)
             | (Inr _, w2) \<Rightarrow> sync_triggers e fn cfg w2))"

text \<open>The \<open>finally\<close> block (source lines 335 to 340).\<close>

definition deploy_finally :: "string \<Rightarrow> world \<Rightarrow> world" where
  "deploy_finally zipPath w =
     (if files w zipPath \<noteq> None then w\<lparr>files := (files w)(zipPath := None)\<rparr> else w)"

definition include_patterns :: "config \<Rightarrow> string list" where
  "include_patterns cfg = (case includes_list cfg of None \<Rightarrow> [''lambda.js''] | Some l \<Rightarrow> l)"

definition source_dir :: "config \<Rightarrow> string" where
  "source_dir cfg = (case sourceDir cfg of None \<Rightarrow> ''.'' | Some d \<Rightarrow> d)"

definition zip_path :: "config \<Rightarrow> string \<Rightarrow> string" where
  "zip_path cfg fn = path_join (source_dir cfg) (fn @ ''.zip'')"

text \<open>
  \<open>deploy\<close>. Rebinding \<open>this.lambda\<close> for a configured region or profile selects the
  remote the run talks to; the environment's \<open>respond\<close> stands for that remote.
\<close>

definition deploy :: "env \<Rightarrow> string option \<Rightarrow> world \<Rightarrow> (js_error + unit) \<times> world" where
  "deploy e configPath w =
     (case loadConfig e configPath of
        Inl err \<Rightarrow> (Inl err, w)
      | Inr cfg \<Rightarrow>
          (case functionName cfg of
             None \<Rightarrow> (Inl (new_Error ''functionName is required in configuration''), w)
           | Some fn \<Rightarrow>
               if fn = [] then (Inl (new_Error ''functionName is required in configuration''), w)
               else
                 (case createZip e (source_dir cfg) (zip_path cfg fn)
                         (include_patterns cfg) w of
                    (Inl err, w0) \<Rightarrow> (Inl err, w0)
                  | (Inr _, w0) \<Rightarrow>
                      (case deploy_try e cfg fn (zip_path cfg fn) w0 of
                         (r, w1) \<Rightarrow> (r, deploy_finally (zip_path cfg fn) w1)))))"

text \<open>The command line: a failed deployment is reported, then the process exits with 1.\<close>

definition cli :: "env \<Rightarrow> string option \<Rightarrow> world \<Rightarrow> nat \<times> world" where
  "cli e configArg w =
     (case deploy e configArg w of
        (Inr _, w1) \<Rightarrow> (0, w1)
      | (Inl err, w1) \<Rightarrow>
          (1, w1\<lparr>stderr := stderr w1 @ [''Deployment failed: '' @ err_message err]\<rparr>))"

section \<open>The older update path\<close>

text \<open>
  \<open>updateFunction\<close> of the older generation: \<open>return this.lambda.send(command)\<close> stands
  inside the \<open>try\<close> without \<open>await\<close>, so the \<open>catch\<close> sees only what \<open>send\<close> throws at
  once; a promise, resolved or rejected, is returned as it is.
\<close>

function updateFunction_loop ::
  "env \<Rightarrow> command \<Rightarrow> nat \<Rightarrow> world \<Rightarrow> (js_error + response option) \<times> world" where
  "updateFunction_loop e c i w =
     (if i < 3 then
        (case send e c w of (r, w1) \<Rightarrow>
          (case r of
             Resolved v \<Rightarrow> (Inr (Some v), w1)
           | Rejected err \<Rightarrow> (Inl err, w1)
           | Thrown err \<Rightarrow>
               if err_name err = ''ResourceConflictException'' \<and> i < 2
               then updateFunction_loop e c (i + 1) (setTimeout e 30000 w1)
               else (Inl err, w1)))
      else (Inr None, w))"
  by pat_completeness auto
termination
  by (relation "measure (\<lambda>(e, c, i, w). 3 - i)") auto

definition updateFunction ::
  "env \<Rightarrow> string \<Rightarrow> string \<Rightarrow> world \<Rightarrow> (js_error + response option) \<times> world" where
  "updateFunction e fn zipPath w =
     (case readFileSync zipPath w of
        Inl err \<Rightarrow> (Inl err, w)
      | Inr zipBuffer \<Rightarrow> updateFunction_loop e (UpdateFunctionCode fn zipBuffer) 0 w)"

section \<open>Reading a run\<close>

definition new_events :: "world \<Rightarrow> world \<Rightarrow> event list" where
  "new_events w w' = drop (length (trace w)) (trace w')"

fun sends_of :: "event list \<Rightarrow> command list" where
  "sends_of [] = []"
| "sends_of (Send c # evs) = c # sends_of evs"
| "sends_of (Sleep ms # evs) = sends_of evs"

definition is_conflict :: "outcome \<Rightarrow> bool" where
  "is_conflict r =
     (case awaited r of Inl err \<Rightarrow> err_name err = ''ResourceConflictException'' | Inr v \<Rightarrow> False)"

text \<open>What an awaited \<open>send\<close> hands to the caller of \<open>updateWithRetry\<close>.\<close>

definition returned :: "outcome \<Rightarrow> js_error + response option" where
  "returned r = (case awaited r of Inl err \<Rightarrow> Inl err | Inr v \<Rightarrow> Inr (Some v))"

text \<open>A poll whose answer carries the last-update status \<open>Failed\<close>.\<close>

definition observes_failed :: "outcome \<Rightarrow> bool" where
  "observes_failed r =
     (case r of
        Resolved result \<Rightarrow>
          (case Configuration result of None \<Rightarrow> False
           | Some c \<Rightarrow> LastUpdateStatus c = Some ''Failed'')
      | Rejected err \<Rightarrow> False
      | Thrown err \<Rightarrow> False)"

text \<open>A poll whose answer is the ready state: \<open>Active\<close> and \<open>Successful\<close>.\<close>

definition observes_ready :: "outcome \<Rightarrow> bool" where
  "observes_ready r =
     (case r of
        Resolved result \<Rightarrow>
          (case Configuration result of None \<Rightarrow> False
           | Some c \<Rightarrow> State c = Some ''Active'' \<and> LastUpdateStatus c = Some ''Successful'')
      | Rejected err \<Rightarrow> False
      | Thrown err \<Rightarrow> False)"

text \<open>The events one call under the retry policy can leave: one, two or three attempts.\<close>

definition attempts :: "command \<Rightarrow> event list set" where
  "attempts c =
     {[Send c], [Send c, Sleep 30000, Send c],
      [Send c, Sleep 30000, Send c, Sleep 60000, Send c]}"

text \<open>The commands of the event-source-mapping API.\<close>

fun is_mapping_command :: "command \<Rightarrow> bool" where
  "is_mapping_command (ListEventSourceMappings fn) = True"
| "is_mapping_command (CreateEventSourceMapping arn fn st) = True"
| "is_mapping_command (UpdateEventSourceMapping uuid st) = True"
| "is_mapping_command (DeleteEventSourceMapping uuid) = True"
| "is_mapping_command c = False"

text \<open>
  Sending a list of commands one after the other and stopping at the first that fails.
  Both loops of the synchronizer are shown below to do this with their commands.
\<close>

fun send_all :: "env \<Rightarrow> command list \<Rightarrow> world \<Rightarrow> (js_error + unit) \<times> world" where
  "send_all e [] w = (Inr (), w)"
| "send_all e (c # cs) w =
     (case send e c w of (r, w1) \<Rightarrow>
       (case awaited r of
          Inl err \<Rightarrow> (Inl err, w1)
        | Inr v \<Rightarrow> send_all e cs w1))"

section \<open>Example runs\<close>

definition plain_response :: response where
  "plain_response = \<lparr>Configuration = None, EventSourceMappings = None\<rparr>"

definition status_response :: "string \<Rightarrow> string \<Rightarrow> response" where
  "status_response st lus =
     \<lparr>Configuration = Some \<lparr>State = Some st, LastUpdateStatus = Some lus\<rparr>,
      EventSourceMappings = None\<rparr>"

definition busy :: js_error where
  "busy = JsError ''ResourceConflictException'' ''An update is in progress''"

definition denied :: js_error where
  "denied = JsError ''AccessDeniedException'' ''not authorized''"

definition not_found :: js_error where
  "not_found = JsError ''ResourceNotFoundException'' ''Function not found''"

text \<open>The \<open>n\<close>-th answer of a script; a script that has run out answers with success.\<close>

fun script_at :: "outcome list \<Rightarrow> nat \<Rightarrow> outcome" where
  "script_at [] n = Resolved plain_response"
| "script_at (x # xs) 0 = x"
| "script_at (x # xs) (Suc n) = script_at xs n"

text \<open>
  An environment that loads the given configuration, builds a two-byte archive, and
  answers the \<open>n\<close>-th \<open>send\<close> of the run with the \<open>n\<close>-th entry of the script.
\<close>

definition scripted :: "config \<Rightarrow> outcome list \<Rightarrow> env" where
  "scripted cfg script =
     \<lparr>respond = (\<lambda>h c. script_at script (length (sends_of h))),
      latency = (\<lambda>h c. 100),
      overrun = (\<lambda>h. 0),
      loadConfig = (\<lambda>p. Inr cfg),
      archive = (\<lambda>d i. Inr ''PK'')\<rparr>"

definition bare_config :: config where
  "bare_config =
     \<lparr>functionName = Some ''fn'', sourceDir = None, roleArn = None, includes_list = None,
      region = None, profile = None, runtime = None, handler = None, description = None,
      timeout = None, memorySize = None, environment = None, layers = None,
      sqsTriggers = None\<rparr>"

definition empty_world :: world where
  "empty_world = \<lparr>trace = [], now = 0, files = Map.empty, stderr = []\<rparr>"

definition zip_world :: world where
  "zip_world = \<lparr>trace = [], now = 0, files = [''fn.zip'' \<mapsto> ''PK''], stderr = []\<rparr>"

text \<open>A configuration that sets a timeout and nothing else beyond the function name.\<close>

definition timeout_config :: config where
  "timeout_config = bare_config\<lparr>timeout := Some 60\<rparr>"

text \<open>An existing function whose code update is accepted and then reported \<open>Failed\<close>.\<close>

definition failing_update :: env where
  "failing_update =
     scripted timeout_config
       [Resolved plain_response, Resolved plain_response,
        Resolved (status_response ''Pending'' ''InProgress''),
        Resolved (status_response ''Active'' ''Failed'')]"



text \<open>
  Configured triggers for the queues A and B against remote mappings for A and C: in the
  first environment every call succeeds, in the second the update for A is rejected.
\<close>

definition trigger_a :: trigger where
  "trigger_a = \<lparr>queueArn = ''arn:A'', batchSize = None, maxBatchingWindow = None, enabled = None\<rparr>"

definition trigger_b :: trigger where
  "trigger_b = \<lparr>queueArn = ''arn:B'', batchSize = Some 5, maxBatchingWindow = None, enabled = None\<rparr>"

definition listing :: response where
  "listing =
     \<lparr>Configuration = None,
      EventSourceMappings =
        Some [\<lparr>UUID = ''u1'', EventSourceArn = ''arn:A''\<rparr>,
              \<lparr>UUID = ''u3'', EventSourceArn = ''arn:C''\<rparr>]\<rparr>"

definition sync_ok :: env where
  "sync_ok = scripted bare_config [Resolved listing]"

definition sync_rejected :: env where
  "sync_rejected = scripted bare_config [Resolved listing, Rejected denied]"

text \<open>A function that does not exist yet, deployed without and with a role.\<close>

definition absent_function :: env where
  "absent_function = scripted bare_config [Rejected not_found]"

definition role_config :: config where
  "role_config =
     bare_config\<lparr>roleArn := Some ''arn:aws:iam::123456789012:role/lambda-role'',
                  memorySize := Some 256\<rparr>"

definition absent_function_with_role :: env where
  "absent_function_with_role = scripted role_config [Rejected not_found]"

text \<open>The same with a description that is supplied but empty.\<close>

definition blank_description_config :: config where
  "blank_description_config = role_config\<lparr>description := Some []\<rparr>"

definition absent_function_blank_description :: env where
  "absent_function_blank_description = scripted blank_description_config [Rejected not_found]"

text \<open>An existing function, deployed with the role and memory size of above; all goes well.\<close>

definition existing_function_with_role :: env where
  "existing_function_with_role =
     scripted role_config
       [Resolved plain_response, Resolved plain_response,
        Resolved (status_response ''Active'' ''Successful'')]"

text \<open>The older update path meeting a conflict that arrives as a rejected promise.\<close>

definition busy_remote :: env where
  "busy_remote = scripted bare_config [Rejected busy]"

section \<open>Basic facts about the primitives\<close>

lemma send_simps:
  "fst (send e c w) = respond e (trace w) c"
  "trace (snd (send e c w)) = trace w @ [Send c]"
  "files (snd (send e c w)) = files w"
  "stderr (snd (send e c w)) = stderr w"
  by (simp_all add: send_def)

lemma setTimeout_simps:
  "trace (setTimeout e ms w) = trace w @ [Sleep ms]"
  "files (setTimeout e ms w) = files w"
  "stderr (setTimeout e ms w) = stderr w"
  by (simp_all add: setTimeout_def)

text \<open>The definitions a concrete run is evaluated with.\<close>

lemmas run_defs =
  deploy_def createZip_def deploy_try_def deploy_finally_def functionExists_def
  sync_triggers_def createFunction_def updateFunctionSequential_def waitForFunctionReady_def
  updateEventSourceMappings_def readFileSync_def send_def setTimeout_def awaited_def
  poll_try_def poll_catch_def is_conflict_def returned_def config_affecting_def
  truthy_str_def truthy_num_def truthy_obj_def or_str_def or_num_def or_obj_def
  zip_path_def source_dir_def include_patterns_def path_join_def new_Error_def
  trigger_command_def existingMapping_def mappingSettings_def new_events_def

lemmas example_defs =
  scripted_def bare_config_def empty_world_def zip_world_def plain_response_def
  status_response_def busy_def denied_def not_found_def timeout_config_def
  trigger_a_def trigger_b_def listing_def role_config_def

lemma sends_of_append: "sends_of (xs @ ys) = sends_of xs @ sends_of ys"
  by (induction xs rule: sends_of.induct) simp_all

section \<open>The conflict-retry policy\<close>

lemma updateWithRetry_unfold:
  "updateWithRetry e c w =
     (case send e c w of (r1, w1) \<Rightarrow>
        if \<not> is_conflict r1 then (returned r1, w1)
        else (case send e c (setTimeout e 30000 w1) of (r2, w2) \<Rightarrow>
          if \<not> is_conflict r2 then (returned r2, w2)
          else (case send e c (setTimeout e 60000 w2) of (r3, w3) \<Rightarrow> (returned r3, w3))))"
  unfolding updateWithRetry_def
  apply (subst retry_loop.simps)
  apply (subst retry_loop.simps)
  apply (subst retry_loop.simps)
  apply (simp add: is_conflict_def returned_def split: sum.splits prod.splits)
  done

lemma updateWithRetry_events:
  assumes "updateWithRetry e c w = (r, w')"
  shows "\<exists>evs. trace w' = trace w @ evs \<and> files w' = files w \<and> stderr w' = stderr w \<and>
           evs \<in> attempts c"
  using assms unfolding updateWithRetry_unfold attempts_def
  by (auto simp: send_def setTimeout_def split: prod.splits if_splits)

lemma updateWithRetry_calm:
  assumes "updateWithRetry e c w = (r, w')" "\<forall>h. \<not> is_conflict (respond e h c)"
  shows "trace w' = trace w @ [Send c]"
  using assms unfolding updateWithRetry_unfold
  by (auto simp: send_def setTimeout_def split: prod.splits if_splits)

text \<open>
  Claim C3. A call under \<open>updateWithRetry\<close> is sent at most three times. An attempt that
  does not end in a resource conflict (a success or any other error) ends the call with
  its outcome. A conflict on the first attempt is followed by a wait of 30000 ms and a
  second attempt; a conflict on the second by a wait of 60000 ms, which is longer, and a
  third attempt, whose outcome ends the call whatever it is, a conflict included.
\<close>

theorem updateWithRetry_policy:
  "(let h1 = trace w;
        h2 = h1 @ [Send c, Sleep 30000];
        h3 = h2 @ [Send c, Sleep 60000];
        r1 = respond e h1 c; r2 = respond e h2 c; r3 = respond e h3 c
    in case updateWithRetry e c w of (res, w') \<Rightarrow>
      (if \<not> is_conflict r1 then trace w' = h1 @ [Send c] \<and> res = returned r1
       else if \<not> is_conflict r2 then trace w' = h2 @ [Send c] \<and> res = returned r2
       else trace w' = h3 @ [Send c] \<and> res = returned r3)
      \<and> length (sends_of (new_events w w')) \<le> 3 \<and> (30000::nat) < 60000)"
  unfolding updateWithRetry_unfold Let_def
  by (simp add: send_def setTimeout_def new_events_def split: prod.splits)

theorem updateWithRetry_policy_witness:
  "trace (snd (updateWithRetry (scripted bare_config [Rejected busy, Rejected denied])
                 (UpdateFunctionCode ''fn'' ''PK'') empty_world))
     = [Send (UpdateFunctionCode ''fn'' ''PK''), Sleep 30000,
        Send (UpdateFunctionCode ''fn'' ''PK'')]
   \<and> fst (updateWithRetry (scripted bare_config [Rejected busy, Rejected denied])
            (UpdateFunctionCode ''fn'' ''PK'') empty_world) = Inl denied"
  using updateWithRetry_policy
          [of empty_world "UpdateFunctionCode ''fn'' ''PK''" "scripted bare_config [Rejected busy, Rejected denied]"]
  by (simp add: Let_def case_prod_beta scripted_def empty_world_def is_conflict_def
        returned_def awaited_def busy_def denied_def)

section \<open>The readiness poller and the update path\<close>

lemma observes_failed_throws:
  "observes_failed r \<Longrightarrow> poll_catch (poll_try r) = Throw (new_Error ''Previous update failed'')"
  by (auto simp: observes_failed_def poll_catch_def poll_try_def awaited_def new_Error_def
           split: outcome.splits option.splits)

lemma poll_return_ready: "poll_catch (poll_try r) = Return \<Longrightarrow> observes_ready r"
  by (auto simp: observes_ready_def poll_catch_def poll_try_def awaited_def new_Error_def Let_def
           split: outcome.splits option.splits if_splits completion.splits sum.splits)

lemma wait_loop_events:
  "wait_loop e fn m s w = (r, w') \<Longrightarrow>
     \<exists>evs. trace w' = trace w @ evs \<and> files w' = files w \<and> stderr w' = stderr w \<and>
       set evs \<subseteq> {Send (GetFunction fn), Sleep 3000}"
proof (induction e fn m s w rule: wait_loop.induct)
  case (1 e fn m s w)
  show ?case
  proof (cases "now w - s < m")
    case False
    with "1.prems" show ?thesis by (simp add: wait_loop.simps[of e fn m s w])
  next
    case True
    obtain r1 w1 where s1: "send e (GetFunction fn) w = (r1, w1)" by (cases "send e (GetFunction fn) w")
    have t1: "trace w1 = trace w @ [Send (GetFunction fn)]" "files w1 = files w" "stderr w1 = stderr w"
      using s1 by (auto simp: send_def)
    let ?w2 = "setTimeout e 3000 w1"
    have t2: "trace ?w2 = trace w @ [Send (GetFunction fn), Sleep 3000]" "files ?w2 = files w" "stderr ?w2 = stderr w"
      using t1 by (simp_all add: setTimeout_def)
    show ?thesis
    proof (cases "poll_catch (poll_try r1)")
      case Return
      with True s1 "1.prems" t1 show ?thesis by (auto simp: wait_loop.simps[of e fn m s w])
    next
      case (Throw err)
      with True s1 "1.prems" t1 show ?thesis by (auto simp: wait_loop.simps[of e fn m s w])
    next
      case Fallthrough
      with True s1 "1.prems" have "wait_loop e fn m s ?w2 = (r, w')"
        by (simp add: wait_loop.simps[of e fn m s w])
      from "1.IH"[OF True s1[symmetric] Fallthrough this] t2 show ?thesis by auto
    qed
  qed
qed

text \<open>A poller that returns has just seen the ready state, in its last event.\<close>

lemma wait_loop_ready:
  "wait_loop e fn m s w = (Inr u, w') \<Longrightarrow>
     \<exists>evs. trace w' = trace w @ evs @ [Send (GetFunction fn)] \<and>
       observes_ready (respond e (trace w @ evs) (GetFunction fn))"
proof (induction e fn m s w rule: wait_loop.induct)
  case (1 e fn m s w)
  show ?case
  proof (cases "now w - s < m")
    case False
    with "1.prems" show ?thesis by (simp add: wait_loop.simps[of e fn m s w])
  next
    case True
    obtain r1 w1 where s1: "send e (GetFunction fn) w = (r1, w1)" by (cases "send e (GetFunction fn) w")
    have t1: "trace w1 = trace w @ [Send (GetFunction fn)]" "r1 = respond e (trace w) (GetFunction fn)"
      using s1 by (auto simp: send_def)
    let ?w2 = "setTimeout e 3000 w1"
    have t2: "trace ?w2 = trace w @ [Send (GetFunction fn), Sleep 3000]"
      using t1 by (simp_all add: setTimeout_def)
    show ?thesis
    proof (cases "poll_catch (poll_try r1)")
      case Return
      with True s1 "1.prems" have "w' = w1" by (auto simp: wait_loop.simps[of e fn m s w])
      with t1 poll_return_ready[OF Return] show ?thesis by auto
    next
      case (Throw err)
      with True s1 "1.prems" show ?thesis by (auto simp: wait_loop.simps[of e fn m s w])
    next
      case Fallthrough
      with True s1 "1.prems" have "wait_loop e fn m s ?w2 = (Inr u, w')"
        by (simp add: wait_loop.simps[of e fn m s w])
      from "1.IH"[OF True s1[symmetric] Fallthrough this] obtain evs where
        "trace w' = trace ?w2 @ evs @ [Send (GetFunction fn)]"
        "observes_ready (respond e (trace ?w2 @ evs) (GetFunction fn))" by auto
      with t2 have "trace w' = trace w @ ([Send (GetFunction fn), Sleep 3000] @ evs) @ [Send (GetFunction fn)]"
        "observes_ready (respond e (trace w @ ([Send (GetFunction fn), Sleep 3000] @ evs)) (GetFunction fn))"
        by simp_all
      then show ?thesis by blast
    qed
  qed
qed

lemma wait_loop_failed:
  "wait_loop e fn m s w = (r, w') \<Longrightarrow> length (trace w) \<le> k \<Longrightarrow> k < length (trace w') \<Longrightarrow>
   trace w' ! k = Send (GetFunction fn) \<Longrightarrow>
   observes_failed (respond e (take k (trace w')) (GetFunction fn)) \<Longrightarrow>
   r = Inl (new_Error ''Previous update failed'') \<and> Suc k = length (trace w')"
proof (induction e fn m s w rule: wait_loop.induct)
  case (1 e fn m s w)
  show ?case
  proof (cases "now w - s < m")
    case False
    with "1.prems" show ?thesis by (simp add: wait_loop.simps[of e fn m s w])
  next
    case True
    obtain r1 w1 where s1: "send e (GetFunction fn) w = (r1, w1)" by (cases "send e (GetFunction fn) w")
    have t1: "trace w1 = trace w @ [Send (GetFunction fn)]" "r1 = respond e (trace w) (GetFunction fn)"
      using s1 by (auto simp: send_def)
    let ?w2 = "setTimeout e 3000 w1"
    have t2: "trace ?w2 = trace w @ [Send (GetFunction fn), Sleep 3000]"
      using t1 by (simp_all add: setTimeout_def)
    from wait_loop_events[OF "1.prems"(1)] obtain evs where evs: "trace w' = trace w @ evs" by auto
    have first: "k = length (trace w) \<Longrightarrow> observes_failed r1"
      using "1.prems"(5) evs t1 by simp
    show ?thesis
    proof (cases "poll_catch (poll_try r1)")
      case Return
      with True s1 "1.prems" t1 first show ?thesis
        by (auto simp: wait_loop.simps[of e fn m s w] dest!: observes_failed_throws)
    next
      case (Throw err)
      with True s1 "1.prems" t1 first show ?thesis
        by (auto simp: wait_loop.simps[of e fn m s w] dest!: observes_failed_throws)
    next
      case Fallthrough
      with True s1 "1.prems" have w2: "wait_loop e fn m s ?w2 = (r, w')"
        by (simp add: wait_loop.simps[of e fn m s w])
      from wait_loop_events[OF w2] t2 obtain evs2 where
        evs2: "trace w' = trace w @ [Send (GetFunction fn), Sleep 3000] @ evs2" by auto
      have "k \<noteq> length (trace w)" using first Fallthrough by (auto dest!: observes_failed_throws)
      moreover have "k \<noteq> Suc (length (trace w))"
        using "1.prems"(4) evs2 by (auto simp: nth_append)
      ultimately have "length (trace ?w2) \<le> k" using "1.prems"(2) t2 by simp
      from "1.IH"[OF True s1[symmetric] Fallthrough w2 this "1.prems"(3,4,5)] show ?thesis .
    qed
  qed
qed


lemma attempts_nonempty: "C \<in> attempts c \<Longrightarrow> C \<noteq> []"
  by (auto simp: attempts_def)

lemma attempts_sends: "C \<in> attempts c \<Longrightarrow> set (sends_of C) = {c}"
  by (auto simp: attempts_def)

lemma poll_events_sends:
  "set B \<subseteq> {Send (GetFunction fn), Sleep 3000} \<Longrightarrow> set (sends_of B) \<subseteq> {GetFunction fn}"
  by (induction B rule: sends_of.induct) auto

lemma observes_ready_returns: "observes_ready r \<Longrightarrow> poll_catch (poll_try r) = Return"
  by (auto simp: observes_ready_def poll_catch_def poll_try_def awaited_def
           split: outcome.splits option.splits)

lemma wait_loop_saw_ready:
  "wait_loop e fn m s w = (r, w') \<Longrightarrow> length (trace w) \<le> k \<Longrightarrow> k < length (trace w') \<Longrightarrow>
   trace w' ! k = Send (GetFunction fn) \<Longrightarrow>
   observes_ready (respond e (take k (trace w')) (GetFunction fn)) \<Longrightarrow>
   r = Inr () \<and> Suc k = length (trace w')"
proof (induction e fn m s w rule: wait_loop.induct)
  case (1 e fn m s w)
  show ?case
  proof (cases "now w - s < m")
    case False
    with "1.prems" show ?thesis by simp
  next
    case True
    obtain r1 w1 where s1: "send e (GetFunction fn) w = (r1, w1)" by (cases "send e (GetFunction fn) w")
    have t1: "trace w1 = trace w @ [Send (GetFunction fn)]" "r1 = respond e (trace w) (GetFunction fn)"
      using s1 by (auto simp: send_def)
    let ?w2 = "setTimeout e 3000 w1"
    have t2: "trace ?w2 = trace w @ [Send (GetFunction fn), Sleep 3000]"
      using t1 by (simp_all add: setTimeout_def)
    from wait_loop_events[OF "1.prems"(1)] obtain evs where evs: "trace w' = trace w @ evs" by auto
    have first: "k = length (trace w) \<Longrightarrow> observes_ready r1"
      using "1.prems"(5) evs t1 by simp
    show ?thesis
    proof (cases "poll_catch (poll_try r1)")
      case Return
      with True s1 "1.prems" t1 show ?thesis by auto
    next
      case (Throw err)
      with True s1 "1.prems" t1 first show ?thesis
        by (auto dest!: observes_ready_returns)
    next
      case Fallthrough
      with True s1 "1.prems" have w2: "wait_loop e fn m s ?w2 = (r, w')" by simp
      from wait_loop_events[OF w2] t2 obtain evs2 where
        evs2: "trace w' = trace w @ [Send (GetFunction fn), Sleep 3000] @ evs2" by auto
      have "k \<noteq> length (trace w)" using first Fallthrough by (auto dest!: observes_ready_returns)
      moreover have "k \<noteq> Suc (length (trace w))"
        using "1.prems"(4) evs2 by (auto simp: nth_append)
      ultimately have "length (trace ?w2) \<le> k" using "1.prems"(2) t2 by simp
      from "1.IH"[OF True s1[symmetric] Fallthrough w2 this "1.prems"(3,4,5)] show ?thesis .
    qed
  qed
qed

lemma wait_loop_not_ready:
  assumes run: "wait_loop e fn m s w = (Inl err, w')" and B: "trace w' = trace w @ B"
  shows "\<not> (B \<noteq> [] \<and> last B = Send (GetFunction fn)
            \<and> observes_ready (respond e (trace w @ butlast B) (GetFunction fn)))"
proof
  assume a: "B \<noteq> [] \<and> last B = Send (GetFunction fn)
            \<and> observes_ready (respond e (trace w @ butlast B) (GetFunction fn))"
  let ?k = "length (trace w) + length (butlast B)"
  have Bs: "B = butlast B @ [Send (GetFunction fn)]" using a by (metis append_butlast_last_id)
  have "trace w' = (trace w @ butlast B) @ [Send (GetFunction fn)]" using B Bs by simp
  then have "length (trace w) \<le> ?k" "?k < length (trace w')" "trace w' ! ?k = Send (GetFunction fn)"
    "take ?k (trace w') = trace w @ butlast B"
    by (simp_all add: nth_append)
  from wait_loop_saw_ready[OF run this(1,2,3)] this(4) a show False by simp
qed

lemma updateWithRetry_result:
  assumes "updateWithRetry e c w = (r, w')"
  shows "\<exists>evs. trace w' = trace w @ evs \<and> evs \<in> attempts c
           \<and> r = returned (respond e (trace w @ butlast evs) c)"
  using assms unfolding updateWithRetry_unfold attempts_def
  by (auto simp: send_def setTimeout_def split: prod.splits if_splits)

lemma returned_isl: "isl (returned r) = isl (awaited r)"
  by (simp add: returned_def split: sum.splits)

lemma wait_loop_polls:
  assumes "0 < m" "wait_loop e fn m (now w) w = (r, w')"
  shows "trace w' \<noteq> trace w"
proof -
  obtain r1 w1 where s1: "send e (GetFunction fn) w = (r1, w1)"
    by (cases "send e (GetFunction fn) w")
  have t1: "trace w1 = trace w @ [Send (GetFunction fn)]" using s1 by (auto simp: send_def)
  show ?thesis
  proof (cases "poll_catch (poll_try r1)")
    case Return
    with assms s1 t1 show ?thesis by auto
  next
    case (Throw err)
    with assms s1 t1 show ?thesis by auto
  next
    case Fallthrough
    with assms s1 have "wait_loop e fn m (now w) (setTimeout e 3000 w1) = (r, w')" by simp
    from wait_loop_events[OF this] t1 show ?thesis by (auto simp: setTimeout_def)
  qed
qed

lemma updateFunctionSequential_shape:
  assumes zip: "files w zipPath = Some zipBuffer"
    and run: "updateFunctionSequential e fn zipPath cfg w = (r, w')"
  shows "\<exists>A B C. trace w' = trace w @ A @ B @ C \<and> files w' = files w \<and> stderr w' = stderr w
     \<and> A \<in> attempts (UpdateFunctionCode fn zipBuffer)
     \<and> set B \<subseteq> {Send (GetFunction fn), Sleep 3000}
     \<and> (C = [] \<or> C \<in> attempts (UpdateFunctionConfiguration (configParams fn cfg)))
     \<and> (\<not> config_affecting cfg \<longrightarrow> B = [] \<and> C = [])
     \<and> (config_affecting cfg \<and> r = Inr () \<longrightarrow> C \<noteq> [])
     \<and> (B \<noteq> [] \<longleftrightarrow> config_affecting cfg
           \<and> \<not> isl (awaited (respond e (trace w @ butlast A) (UpdateFunctionCode fn zipBuffer))))
     \<and> (C \<noteq> [] \<longleftrightarrow> B \<noteq> [] \<and> last B = Send (GetFunction fn)
           \<and> observes_ready (respond e (trace w @ A @ butlast B) (GetFunction fn)))
     \<and> ((\<forall>h c. \<not> is_conflict (respond e h c)) \<longrightarrow>
           A = [Send (UpdateFunctionCode fn zipBuffer)]
           \<and> (C = [] \<or> C = [Send (UpdateFunctionConfiguration (configParams fn cfg))]))"
proof -
  let ?code = "UpdateFunctionCode fn zipBuffer"
  let ?conf = "UpdateFunctionConfiguration (configParams fn cfg)"
  obtain r1 w1 where u1: "updateWithRetry e ?code w = (r1, w1)"
    by (cases "updateWithRetry e ?code w")
  from updateWithRetry_events[OF u1] updateWithRetry_result[OF u1] obtain A where
    A: "trace w1 = trace w @ A" "files w1 = files w" "stderr w1 = stderr w" "A \<in> attempts ?code"
    and rA: "r1 = returned (respond e (trace w @ butlast A) ?code)"
    by auto
  have islA: "isl r1 = isl (awaited (respond e (trace w @ butlast A) ?code))"
    unfolding rA by (rule returned_isl)
  have calmA: "(\<forall>h c. \<not> is_conflict (respond e h c)) \<longrightarrow> A = [Send ?code]"
    using updateWithRetry_calm[OF u1] A(1) by auto
  show ?thesis
  proof (cases "isl r1 \<or> \<not> config_affecting cfg")
    case True
    with run zip u1 have "w' = w1" "config_affecting cfg \<longrightarrow> r \<noteq> Inr ()"
      by (auto simp: updateFunctionSequential_def readFileSync_def split: sum.splits)
    with A calmA islA True have "trace w' = trace w @ A @ [] @ []" "files w' = files w" "stderr w' = stderr w"
      "A \<in> attempts ?code" "config_affecting cfg \<longrightarrow> r \<noteq> Inr ()"
      "(\<forall>h c. \<not> is_conflict (respond e h c)) \<longrightarrow> A = [Send ?code]"
      "\<not> (config_affecting cfg
           \<and> \<not> isl (awaited (respond e (trace w @ butlast A) ?code)))"
      by auto
    then show ?thesis by (intro exI[of _ A] exI[of _ "[]"]) simp
  next
    case False
    then obtain v1 where r1: "r1 = Inr v1" and aff: "config_affecting cfg" by (cases r1) auto
    have okA: "\<not> isl (awaited (respond e (trace w @ butlast A) ?code))" using islA r1 by simp
    obtain r2 w2 where u2: "waitForFunctionReady e fn 120000 w1 = (r2, w2)"
      by (cases "waitForFunctionReady e fn 120000 w1")
    note loop = u2[unfolded waitForFunctionReady_def]
    from wait_loop_events[OF loop] obtain B where
      B: "trace w2 = trace w1 @ B" "files w2 = files w1" "stderr w2 = stderr w1"
         "set B \<subseteq> {Send (GetFunction fn), Sleep 3000}" by auto
    have Bne: "B \<noteq> []" using wait_loop_polls[OF _ loop] B(1) by simp
    show ?thesis
    proof (cases r2)
      case (Inl err)
      with run zip u1 r1 aff u2 have "w' = w2" "r \<noteq> Inr ()"
        by (auto simp: updateFunctionSequential_def readFileSync_def)
      moreover have "\<not> (B \<noteq> [] \<and> last B = Send (GetFunction fn)
            \<and> observes_ready (respond e (trace w @ A @ butlast B) (GetFunction fn)))"
        using wait_loop_not_ready[OF loop[unfolded Inl] B(1)] A(1) by simp
      ultimately have "trace w' = trace w @ A @ B @ []" "files w' = files w" "stderr w' = stderr w"
        "A \<in> attempts ?code" "set B \<subseteq> {Send (GetFunction fn), Sleep 3000}" "r \<noteq> Inr ()"
        "(\<forall>h c. \<not> is_conflict (respond e h c)) \<longrightarrow> A = [Send ?code]"
        "\<not> (B \<noteq> [] \<and> last B = Send (GetFunction fn)
            \<and> observes_ready (respond e (trace w @ A @ butlast B) (GetFunction fn)))"
        using A B calmA by simp_all
      then show ?thesis using aff okA Bne by (intro exI[of _ A] exI[of _ B] exI[of _ "[]"]) simp
    next
      case (Inr u)
      from wait_loop_ready[OF loop[unfolded Inr]] B(1) obtain evs where
        evs: "B = evs @ [Send (GetFunction fn)]"
          "observes_ready (respond e (trace w1 @ evs) (GetFunction fn))" by auto
      obtain r3 w3 where u3: "updateWithRetry e ?conf w2 = (r3, w3)"
        by (cases "updateWithRetry e ?conf w2")
      from updateWithRetry_events[OF u3] obtain C where
        C: "trace w3 = trace w2 @ C" "files w3 = files w2" "stderr w3 = stderr w2" "C \<in> attempts ?conf"
        by auto
      have calmC: "(\<forall>h c. \<not> is_conflict (respond e h c)) \<longrightarrow> C = [Send ?conf]"
        using updateWithRetry_calm[OF u3] C(1) by auto
      from run zip u1 r1 aff u2 Inr u3 have "w' = w3"
        by (auto simp: updateFunctionSequential_def readFileSync_def split: sum.splits)
      with A B C evs calmA calmC aff have
        "trace w' = trace w @ A @ B @ C" "files w' = files w" "stderr w' = stderr w"
        "A \<in> attempts ?code" "set B \<subseteq> {Send (GetFunction fn), Sleep 3000}"
        "C \<in> attempts ?conf" "C \<noteq> []" "B \<noteq> []" "last B = Send (GetFunction fn)"
        "observes_ready (respond e (trace w @ A @ butlast B) (GetFunction fn))"
        "(\<forall>h c. \<not> is_conflict (respond e h c)) \<longrightarrow> A = [Send ?code] \<and> C = [Send ?conf]"
        by (auto simp: attempts_nonempty)
      then show ?thesis using aff okA by (intro exI[of _ A] exI[of _ B] exI[of _ C]) simp
    qed
  qed
qed

lemma attempts_set: "A \<in> attempts c \<Longrightarrow> set A \<subseteq> {Send c, Sleep 30000, Sleep 60000}"
  by (auto simp: attempts_def)

lemma nth_in_suffix:
  "length xs \<le> k \<Longrightarrow> k < length (xs @ ys) \<Longrightarrow> (xs @ ys) ! k \<in> set ys"
  by (simp add: nth_append)

lemma updateFunctionSequential_failed:
  assumes run: "updateFunctionSequential e fn zipPath cfg w = (r, w')"
    and k: "length (trace w) \<le> k" "k < length (trace w')"
    and poll: "trace w' ! k = Send (GetFunction fn)"
    and failed: "observes_failed (respond e (take k (trace w')) (GetFunction fn))"
  shows "r = Inl (new_Error ''Previous update failed'') \<and> Suc k = length (trace w')
     \<and> (\<forall>p. UpdateFunctionConfiguration p \<notin> set (sends_of (new_events w w')))"
proof (cases "files w zipPath")
  case None
  with run have "w' = w" by (simp add: updateFunctionSequential_def readFileSync_def)
  with k show ?thesis by simp
next
  case (Some zipBuffer)
  let ?code = "UpdateFunctionCode fn zipBuffer"
  let ?conf = "UpdateFunctionConfiguration (configParams fn cfg)"
  obtain r1 w1 where u1: "updateWithRetry e ?code w = (r1, w1)"
    by (cases "updateWithRetry e ?code w")
  from updateWithRetry_events[OF u1] obtain A where
    A: "trace w1 = trace w @ A" "A \<in> attempts ?code" by auto
  have noA: "Send (GetFunction fn) \<notin> set A" using attempts_set[OF A(2)] by auto
  show ?thesis
  proof (cases "isl r1 \<or> \<not> config_affecting cfg")
    case True
    with run Some u1 have "w' = w1"
      by (auto simp: updateFunctionSequential_def readFileSync_def split: sum.splits)
    with A k poll noA nth_in_suffix[of "trace w" k A] show ?thesis by auto
  next
    case False
    then obtain v1 where r1: "r1 = Inr v1" and aff: "config_affecting cfg" by (cases r1) auto
    obtain r2 w2 where u2: "waitForFunctionReady e fn 120000 w1 = (r2, w2)"
      by (cases "waitForFunctionReady e fn 120000 w1")
    note loop = u2[unfolded waitForFunctionReady_def]
    from wait_loop_events[OF loop] obtain B where
      B: "trace w2 = trace w1 @ B" "set B \<subseteq> {Send (GetFunction fn), Sleep 3000}" by auto
    have pre: "\<exists>C. trace w' = trace w2 @ C \<and> Send (GetFunction fn) \<notin> set C
                \<and> (r2 = Inl (new_Error ''Previous update failed'') \<longrightarrow> w' = w2 \<and> r = r2)"
    proof (cases r2)
      case (Inl err)
      with run Some u1 r1 aff u2 have "w' = w2" "r = Inl err"
        by (auto simp: updateFunctionSequential_def readFileSync_def)
      with Inl show ?thesis by auto
    next
      case (Inr u)
      obtain r3 w3 where u3: "updateWithRetry e ?conf w2 = (r3, w3)"
        by (cases "updateWithRetry e ?conf w2")
      from updateWithRetry_events[OF u3] obtain C where
        C: "trace w3 = trace w2 @ C" "C \<in> attempts ?conf" by auto
      from run Some u1 r1 aff u2 Inr u3 have "w' = w3"
        by (auto simp: updateFunctionSequential_def readFileSync_def split: sum.splits)
      with C attempts_set[OF C(2)] Inr show ?thesis by auto
    qed
    then obtain C where C: "trace w' = trace w2 @ C" "Send (GetFunction fn) \<notin> set C"
      "r2 = Inl (new_Error ''Previous update failed'') \<longrightarrow> w' = w2 \<and> r = r2" by auto
    have k1: "length (trace w1) \<le> k"
    proof (rule ccontr)
      assume "\<not> length (trace w1) \<le> k"
      then have "k < length (trace w1)" by simp
      with C(1) B(1) have "trace w' ! k = trace w1 ! k" by (simp add: nth_append)
      moreover have "trace w1 ! k \<in> set A"
        using nth_in_suffix[of "trace w" k A] k(1) \<open>k < length (trace w1)\<close> A(1) by simp
      ultimately show False using poll noA by simp
    qed
    have k2: "k < length (trace w2)"
    proof (rule ccontr)
      assume "\<not> k < length (trace w2)"
      then have "length (trace w2) \<le> k" by simp
      with nth_in_suffix[of "trace w2" k C] k(2) C(1) have "trace w' ! k \<in> set C" by simp
      with poll C(2) show False by simp
    qed
    have same: "trace w2 ! k = Send (GetFunction fn)" "take k (trace w') = take k (trace w2)"
      using k2 C(1) poll by (simp_all add: nth_append)
    from wait_loop_failed[OF loop k1 k2 same(1)] failed same(2)
    have res: "r2 = Inl (new_Error ''Previous update failed'')" "Suc k = length (trace w2)" by auto
    with C(3) have fin: "w' = w2" "r = Inl (new_Error ''Previous update failed'')" by auto
    have "new_events w w' = A @ B" using fin A B by (simp add: new_events_def)
    moreover have "set (sends_of A) = {?code}" using attempts_sends[OF A(2)] .
    moreover have "set (sends_of B) \<subseteq> {GetFunction fn}" using poll_events_sends[OF B(2)] .
    ultimately have "\<forall>p. UpdateFunctionConfiguration p \<notin> set (sends_of (new_events w w'))"
      by (auto simp: sends_of_append)
    with res fin show ?thesis by simp
  qed
qed

lemma waitForFunctionReady_failed:
  "waitForFunctionReady e fn maxWaitMs w = (r, w') \<Longrightarrow> length (trace w) \<le> k \<Longrightarrow>
   k < length (trace w') \<Longrightarrow> trace w' ! k = Send (GetFunction fn) \<Longrightarrow>
   observes_failed (respond e (take k (trace w')) (GetFunction fn)) \<Longrightarrow>
   r = Inl (new_Error ''Previous update failed'') \<and> Suc k = length (trace w')"
  unfolding waitForFunctionReady_def by (rule wait_loop_failed)


section \<open>The trigger synchronizer\<close>

lemma process_triggers_events:
  "process_triggers e fn ex ts w = (r, w') \<Longrightarrow>
     \<exists>n. trace w' = trace w @ map (\<lambda>t. Send (trigger_command fn ex t)) (take n ts)
       \<and> files w' = files w \<and> stderr w' = stderr w \<and> (r = Inr () \<longrightarrow> length ts \<le> n)"
proof (induction ts arbitrary: w)
  case Nil
  then show ?case by simp
next
  case (Cons t ts)
  obtain r1 w1 where s1: "send e (trigger_command fn ex t) w = (r1, w1)"
    by (cases "send e (trigger_command fn ex t) w")
  have t1: "trace w1 = trace w @ [Send (trigger_command fn ex t)]" "files w1 = files w"
    "stderr w1 = stderr w" using s1 by (auto simp: send_def)
  show ?case
  proof (cases "awaited r1")
    case (Inl err)
    with Cons.prems s1 have "w' = w1" "r = Inl err" by auto
    with t1 have "trace w' = trace w @ map (\<lambda>t. Send (trigger_command fn ex t)) (take 1 (t # ts))"
      "files w' = files w" "stderr w' = stderr w" "r \<noteq> Inr ()" by simp_all
    then show ?thesis by blast
  next
    case (Inr v)
    with Cons.prems s1 have "process_triggers e fn ex ts w1 = (r, w')" by simp
    from Cons.IH[OF this] obtain n where
      n: "trace w' = trace w1 @ map (\<lambda>t. Send (trigger_command fn ex t)) (take n ts)"
         "files w' = files w1" "stderr w' = stderr w1" "r = Inr () \<longrightarrow> length ts \<le> n" by auto
    with t1 have
      "trace w' = trace w @ map (\<lambda>t. Send (trigger_command fn ex t)) (take (Suc n) (t # ts))"
      "files w' = files w" "stderr w' = stderr w" "r = Inr () \<longrightarrow> length (t # ts) \<le> Suc n"
      by simp_all
    then show ?thesis by blast
  qed
qed

lemma remove_mappings_events:
  "remove_mappings e arns ms w = (r, w') \<Longrightarrow>
     \<exists>n. trace w' = trace w @ map (\<lambda>m. Send (DeleteEventSourceMapping (UUID m)))
                                (take n (filter (\<lambda>m. EventSourceArn m \<notin> set arns) ms))
       \<and> files w' = files w \<and> stderr w' = stderr w
       \<and> (r = Inr () \<longrightarrow> length (filter (\<lambda>m. EventSourceArn m \<notin> set arns) ms) \<le> n)"
proof (induction ms arbitrary: w)
  case Nil
  then show ?case by simp
next
  case (Cons m ms)
  show ?case
  proof (cases "EventSourceArn m \<in> set arns")
    case True
    with Cons.prems have "remove_mappings e arns ms w = (r, w')" by simp
    from Cons.IH[OF this] True show ?thesis by simp
  next
    case False
    obtain r1 w1 where s1: "send e (DeleteEventSourceMapping (UUID m)) w = (r1, w1)"
      by (cases "send e (DeleteEventSourceMapping (UUID m)) w")
    have t1: "trace w1 = trace w @ [Send (DeleteEventSourceMapping (UUID m))]" "files w1 = files w"
      "stderr w1 = stderr w" using s1 by (auto simp: send_def)
    let ?del = "\<lambda>m. Send (DeleteEventSourceMapping (UUID m))"
    let ?un = "\<lambda>m. EventSourceArn m \<notin> set arns"
    show ?thesis
    proof (cases "awaited r1")
      case (Inl err)
      with Cons.prems s1 False have "w' = w1" "r = Inl err" by auto
      with t1 False have "trace w' = trace w @ map ?del (take 1 (filter ?un (m # ms)))"
        "files w' = files w" "stderr w' = stderr w" "r \<noteq> Inr ()" by simp_all
      then show ?thesis by blast
    next
      case (Inr v)
      with Cons.prems s1 False have "remove_mappings e arns ms w1 = (r, w')" by simp
      from Cons.IH[OF this] obtain n where
        n: "trace w' = trace w1 @ map ?del (take n (filter ?un ms))"
           "files w' = files w1" "stderr w' = stderr w1"
           "r = Inr () \<longrightarrow> length (filter ?un ms) \<le> n" by auto
      with t1 False have
        "trace w' = trace w @ map ?del (take (Suc n) (filter ?un (m # ms)))"
        "files w' = files w" "stderr w' = stderr w"
        "r = Inr () \<longrightarrow> length (filter ?un (m # ms)) \<le> Suc n"
        by simp_all
      then show ?thesis by blast
    qed
  qed
qed

text \<open>The commands a synchronization pass sends when nothing fails.\<close>

lemma updateEventSourceMappings_success:
  assumes ne: "triggers \<noteq> []"
    and listed: "awaited (respond e (trace w) (ListEventSourceMappings fn)) = Inr existing"
    and run: "updateEventSourceMappings e fn triggers w = (Inr (), w')"
  shows "trace w' = trace w @ map Send
           (ListEventSourceMappings fn # map (trigger_command fn existing) triggers
            @ map (\<lambda>m. DeleteEventSourceMapping (UUID m))
                (filter (\<lambda>m. EventSourceArn m \<notin> queueArn ` set triggers)
                   (or_obj (EventSourceMappings existing) [])))"
proof -
  obtain r1 w1 where s1: "send e (ListEventSourceMappings fn) w = (r1, w1)"
    by (cases "send e (ListEventSourceMappings fn) w")
  have t1: "trace w1 = trace w @ [Send (ListEventSourceMappings fn)]" "awaited r1 = Inr existing"
    using s1 listed by (auto simp: send_def)
  obtain r2 w2 where p: "process_triggers e fn existing triggers w1 = (r2, w2)"
    by (cases "process_triggers e fn existing triggers w1")
  from run ne s1 t1 p obtain u where r2: "r2 = Inr u"
    and rm: "remove_mappings e (map queueArn triggers) (or_obj (EventSourceMappings existing) []) w2
              = (Inr (), w')"
    by (cases r2) (auto simp: updateEventSourceMappings_def)
  from process_triggers_events[OF p] r2 have
    t2: "trace w2 = trace w1 @ map (\<lambda>t. Send (trigger_command fn existing t)) triggers" by auto
  from remove_mappings_events[OF rm] have
    t3: "trace w' = trace w2 @ map (\<lambda>m. Send (DeleteEventSourceMapping (UUID m)))
            (filter (\<lambda>m. EventSourceArn m \<notin> set (map queueArn triggers))
               (or_obj (EventSourceMappings existing) []))" by auto
  from t1 t2 t3 show ?thesis by (simp add: comp_def)
qed

lemma updateEventSourceMappings_events:
  assumes run: "updateEventSourceMappings e fn triggers w = (r, w')"
  shows "\<exists>cmds. trace w' = trace w @ map Send cmds \<and> list_all is_mapping_command cmds
           \<and> files w' = files w \<and> stderr w' = stderr w"
proof (cases "triggers = []")
  case True
  with run have "w' = w" by (simp add: updateEventSourceMappings_def)
  then have "trace w' = trace w @ map Send []" "list_all is_mapping_command []"
    "files w' = files w" "stderr w' = stderr w" by simp_all
  then show ?thesis by blast
next
  case False
  obtain r1 w1 where s1: "send e (ListEventSourceMappings fn) w = (r1, w1)"
    by (cases "send e (ListEventSourceMappings fn) w")
  have t1: "trace w1 = trace w @ map Send [ListEventSourceMappings fn]" "files w1 = files w"
    "stderr w1 = stderr w" using s1 by (auto simp: send_def)
  show ?thesis
  proof (cases "awaited r1")
    case (Inl err)
    with run False s1 have "w' = w1" by (simp add: updateEventSourceMappings_def)
    with t1 have "trace w' = trace w @ map Send [ListEventSourceMappings fn]"
      "list_all is_mapping_command [ListEventSourceMappings fn]"
      "files w' = files w" "stderr w' = stderr w" by simp_all
    then show ?thesis by blast
  next
    case (Inr existing)
    obtain r2 w2 where p: "process_triggers e fn existing triggers w1 = (r2, w2)"
      by (cases "process_triggers e fn existing triggers w1")
    from process_triggers_events[OF p] obtain n where
      t2: "trace w2 = trace w1 @ map Send (map (trigger_command fn existing) (take n triggers))"
        "files w2 = files w1" "stderr w2 = stderr w1" by (auto simp: comp_def)
    have m2: "list_all is_mapping_command (map (trigger_command fn existing) (take n triggers))"
      by (auto simp: list_all_iff trigger_command_def split: option.splits)
    let ?R = "or_obj (EventSourceMappings existing) []"
    have "\<exists>ds. trace w' = trace w2 @ map Send ds \<and> list_all is_mapping_command ds
            \<and> files w' = files w2 \<and> stderr w' = stderr w2"
    proof (cases r2)
      case (Inl err)
      with run False s1 Inr p have "w' = w2" by (simp add: updateEventSourceMappings_def)
      then have "trace w' = trace w2 @ map Send []" "list_all is_mapping_command []"
        "files w' = files w2" "stderr w' = stderr w2" by simp_all
      then show ?thesis by blast
    next
      case (Inr u)
      with run False s1 \<open>awaited r1 = Inr existing\<close> p
      have "remove_mappings e (map queueArn triggers) ?R w2 = (r, w')"
        by (simp add: updateEventSourceMappings_def)
      from remove_mappings_events[OF this] obtain k where
        "trace w' = trace w2 @ map Send (map (\<lambda>m. DeleteEventSourceMapping (UUID m))
            (take k (filter (\<lambda>m. EventSourceArn m \<notin> set (map queueArn triggers)) ?R)))"
        "files w' = files w2" "stderr w' = stderr w2" by (auto simp: comp_def)
      moreover have "list_all is_mapping_command (map (\<lambda>m. DeleteEventSourceMapping (UUID m))
            (take k (filter (\<lambda>m. EventSourceArn m \<notin> set (map queueArn triggers)) ?R)))"
        by (simp add: list_all_iff)
      ultimately show ?thesis by blast
    qed
    then obtain ds where ds: "trace w' = trace w2 @ map Send ds" "list_all is_mapping_command ds"
      "files w' = files w2" "stderr w' = stderr w2" by auto
    let ?all = "[ListEventSourceMappings fn] @ map (trigger_command fn existing) (take n triggers) @ ds"
    from t1 t2 ds m2 have "trace w' = trace w @ map Send ?all" "list_all is_mapping_command ?all"
      "files w' = files w" "stderr w' = stderr w" by simp_all
    then show ?thesis by blast
  qed
qed


lemma process_triggers_send_all:
  "process_triggers e fn ex ts w = send_all e (map (trigger_command fn ex) ts) w"
  by (induction ts arbitrary: w) (auto split: prod.splits sum.splits)

lemma remove_mappings_send_all:
  "remove_mappings e arns ms w =
     send_all e (map (\<lambda>m. DeleteEventSourceMapping (UUID m))
                   (filter (\<lambda>m. EventSourceArn m \<notin> set arns) ms)) w"
  by (induction ms arbitrary: w) (auto split: prod.splits sum.splits)

lemma send_all_append:
  "send_all e (xs @ ys) w =
     (case send_all e xs w of (Inl err, w1) \<Rightarrow> (Inl err, w1) | (Inr u, w1) \<Rightarrow> send_all e ys w1)"
  by (induction xs arbitrary: w) (auto split: prod.splits sum.splits)

lemma updateEventSourceMappings_send_all:
  assumes "triggers \<noteq> []"
  shows "updateEventSourceMappings e fn triggers w =
     send_all e
       (ListEventSourceMappings fn #
        (case awaited (respond e (trace w) (ListEventSourceMappings fn)) of
           Inl err \<Rightarrow> []
         | Inr existing \<Rightarrow>
             map (trigger_command fn existing) triggers
             @ map (\<lambda>m. DeleteEventSourceMapping (UUID m))
                 (filter (\<lambda>m. EventSourceArn m \<notin> queueArn ` set triggers)
                    (or_obj (EventSourceMappings existing) [])))) w"
  using assms
  by (auto simp: updateEventSourceMappings_def process_triggers_send_all
        remove_mappings_send_all send_all_append send_def split: prod.splits sum.splits)

lemma send_all_prefix:
  "send_all e cs w = (r, w') \<Longrightarrow>
     \<exists>n\<le>length cs. trace w' = trace w @ map Send (take n cs)
        \<and> (r = Inr () \<longrightarrow> n = length cs) \<and> (cs \<noteq> [] \<longrightarrow> 0 < n)"
proof (induction cs arbitrary: w)
  case Nil
  then show ?case by simp
next
  case (Cons c cs)
  obtain r1 w1 where s1: "send e c w = (r1, w1)" by (cases "send e c w")
  have t1: "trace w1 = trace w @ [Send c]" using s1 by (auto simp: send_def)
  show ?case
  proof (cases "awaited r1")
    case (Inl err)
    with Cons.prems s1 have "w' = w1" "r = Inl err" by auto
    with t1 have "trace w' = trace w @ map Send (take 1 (c # cs))" "r \<noteq> Inr ()" by simp_all
    then show ?thesis by (intro exI[of _ 1]) simp
  next
    case (Inr v)
    with Cons.prems s1 have "send_all e cs w1 = (r, w')" by simp
    from Cons.IH[OF this] obtain n where
      n: "n \<le> length cs" "trace w' = trace w1 @ map Send (take n cs)"
         "r = Inr () \<longrightarrow> n = length cs" by auto
    with t1 show ?thesis by (intro exI[of _ "Suc n"]) simp
  qed
qed

text \<open>A call that is answered with an error is the last event, and its error the result.\<close>

lemma send_all_failed:
  "send_all e cs w = (r, w') \<Longrightarrow> length (trace w) \<le> k \<Longrightarrow> k < length (trace w') \<Longrightarrow>
   trace w' ! k = Send c \<Longrightarrow> awaited (respond e (take k (trace w')) c) = Inl err \<Longrightarrow>
   r = Inl err \<and> Suc k = length (trace w')"
proof (induction cs arbitrary: w)
  case Nil
  then show ?case by simp
next
  case (Cons c0 cs)
  obtain r1 w1 where s1: "send e c0 w = (r1, w1)" by (cases "send e c0 w")
  have t1: "trace w1 = trace w @ [Send c0]" "r1 = respond e (trace w) c0"
    using s1 by (auto simp: send_def)
  from send_all_prefix[OF Cons.prems(1)] obtain n where
    n: "0 < n" "trace w' = trace w @ map Send (take n (c0 # cs))" by auto
  then obtain rest where rest: "trace w' = trace w @ Send c0 # rest"
    by (cases n) auto
  show ?case
  proof (cases "k = length (trace w)")
    case True
    with rest Cons.prems(4,5) t1 have "awaited r1 = Inl err" by simp
    with Cons.prems(1) s1 have "r = Inl err" "w' = w1" by auto
    with t1 True show ?thesis by simp
  next
    case False
    with Cons.prems(2) t1 have k1: "length (trace w1) \<le> k" by simp
    show ?thesis
    proof (cases "awaited r1")
      case (Inl err1)
      with Cons.prems(1) s1 have "w' = w1" by auto
      with k1 Cons.prems(3) show ?thesis by simp
    next
      case (Inr v)
      with Cons.prems(1) s1 have "send_all e cs w1 = (r, w')" by simp
      from Cons.IH[OF this k1 Cons.prems(3,4,5)] show ?thesis .
    qed
  qed
qed

text \<open>An error result is the error of the last call sent.\<close>

lemma send_all_error_last:
  "send_all e cs w = (Inl err, w') \<Longrightarrow>
     \<exists>h c. trace w' = h @ [Send c] \<and> length (trace w) \<le> length h
        \<and> awaited (respond e h c) = Inl err"
proof (induction cs arbitrary: w)
  case Nil
  then show ?case by simp
next
  case (Cons c0 cs)
  obtain r1 w1 where s1: "send e c0 w = (r1, w1)" by (cases "send e c0 w")
  have t1: "trace w1 = trace w @ [Send c0]" "r1 = respond e (trace w) c0"
    using s1 by (auto simp: send_def)
  show ?case
  proof (cases "awaited r1")
    case (Inl err1)
    with Cons.prems s1 have "w' = w1" "err1 = err" by auto
    with t1 Inl have "trace w' = trace w @ [Send c0]" "awaited (respond e (trace w) c0) = Inl err"
      by simp_all
    then show ?thesis by (intro exI[of _ "trace w"] exI[of _ c0]) simp
  next
    case (Inr v)
    with Cons.prems s1 have "send_all e cs w1 = (Inl err, w')" by simp
    from Cons.IH[OF this] obtain h c where
      "trace w' = h @ [Send c]" "length (trace w1) \<le> length h" "awaited (respond e h c) = Inl err"
      by auto
    with t1 show ?thesis by (intro exI[of _ h] exI[of _ c]) simp
  qed
qed

section \<open>The deployment run\<close>

lemma deploy_finally_simps:
  "trace (deploy_finally zp w) = trace w"
  "stderr (deploy_finally zp w) = stderr w"
  "files (deploy_finally zp w) zp = None"
  by (simp_all add: deploy_finally_def)

lemma deploy_unfold:
  assumes "loadConfig e configPath = Inr cfg" "functionName cfg = Some fn" "fn \<noteq> []"
    and "archive e (source_dir cfg) (include_patterns cfg) = Inr bytes"
  shows "deploy e configPath w =
     (case deploy_try e cfg fn (zip_path cfg fn)
             (w\<lparr>files := (files w)(zip_path cfg fn \<mapsto> bytes)\<rparr>) of
        (r, w1) \<Rightarrow> (r, deploy_finally (zip_path cfg fn) w1))"
  using assms by (simp add: deploy_def createZip_def)

lemma sync_triggers_events:
  assumes "sync_triggers e fn cfg w = (r, w')"
  shows "\<exists>cmds. trace w' = trace w @ map Send cmds \<and> list_all is_mapping_command cmds
           \<and> files w' = files w \<and> stderr w' = stderr w"
proof (cases "sqsTriggers cfg")
  case None
  with assms have "w' = w" by (simp add: sync_triggers_def)
  then have "trace w' = trace w @ map Send []" "list_all is_mapping_command []"
    "files w' = files w" "stderr w' = stderr w" by simp_all
  then show ?thesis by blast
next
  case (Some ts)
  with assms have "updateEventSourceMappings e fn ts w = (r, w')" by (simp add: sync_triggers_def)
  then show ?thesis by (rule updateEventSourceMappings_events)
qed

lemma createFunction_events:
  assumes "files w zp = Some bytes" "createFunction e cfg zp w = (r, w')"
  shows "trace w' = trace w @ [Send (CreateFunction (createParams cfg bytes))]
     \<and> files w' = files w \<and> stderr w' = stderr w"
  using assms by (auto simp: createFunction_def readFileSync_def send_def)

lemma deploy_try_existing:
  assumes "awaited (respond e (trace w) (GetFunction fn)) = Inr v"
  shows "deploy_try e cfg fn zp w =
     (case updateFunctionSequential e fn zp cfg (snd (send e (GetFunction fn) w)) of
        (Inl err, w2) \<Rightarrow> (Inl err, w2)
      | (Inr u, w2) \<Rightarrow> sync_triggers e fn cfg w2)"
  using assms by (simp add: deploy_try_def functionExists_def send_def)

lemma deploy_try_absent:
  assumes "awaited (respond e (trace w) (GetFunction fn)) = Inl err"
    "err_name err = ''ResourceNotFoundException''"
  shows "deploy_try e cfg fn zp w =
     (if \<not> truthy_str (roleArn cfg)
      then (Inl (new_Error ''roleArn is required for creating new functions''),
            snd (send e (GetFunction fn) w))
      else (case createFunction e cfg zp (snd (send e (GetFunction fn) w)) of
              (Inl err, w2) \<Rightarrow> (Inl err, w2)
            | (Inr u, w2) \<Rightarrow> sync_triggers e fn cfg w2))"
  using assms by (simp add: deploy_try_def functionExists_def send_def)

lemma deploy_try_error:
  assumes "awaited (respond e (trace w) (GetFunction fn)) = Inl err"
    "err_name err \<noteq> ''ResourceNotFoundException''"
  shows "deploy_try e cfg fn zp w = (Inl err, snd (send e (GetFunction fn) w))"
  using assms by (simp add: deploy_try_def functionExists_def send_def)



lemma updateFunctionSequential_prefix:
  assumes "updateFunctionSequential e fn zp cfg w = (r, w')"
  shows "\<exists>evs. trace w' = trace w @ evs"
proof (cases "files w zp")
  case None
  with assms have "w' = w" by (simp add: updateFunctionSequential_def readFileSync_def)
  then show ?thesis by simp
next
  case (Some bytes)
  from updateFunctionSequential_shape[OF Some assms] show ?thesis by auto
qed

lemma deploy_try_absent_events:
  assumes absent: "awaited (respond e (trace w) (GetFunction fn)) = Inl err"
    and run: "deploy_try e cfg fn zp w = (r, w')"
  shows "\<exists>cmds. trace w' = trace w @ Send (GetFunction fn) # map Send cmds
           \<and> GetFunction fn \<notin> set cmds"
proof -
  let ?w0 = "snd (send e (GetFunction fn) w)"
  have w0: "trace ?w0 = trace w @ [Send (GetFunction fn)]" by (simp add: send_def)
  have stop: "w' = ?w0 \<Longrightarrow> ?thesis"
  proof -
    assume "w' = ?w0"
    with w0 have "trace w' = trace w @ Send (GetFunction fn) # map Send []"
      "GetFunction fn \<notin> set []" by simp_all
    then show ?thesis by blast
  qed
  show ?thesis
  proof (cases "err_name err = ''ResourceNotFoundException'' \<and> truthy_str (roleArn cfg)")
    case False
    with run absent have "w' = ?w0"
      by (cases "err_name err = ''ResourceNotFoundException''")
         (auto simp: deploy_try_absent deploy_try_error)
    then show ?thesis by (rule stop)
  next
    case True
    obtain r2 w2 where c: "createFunction e cfg zp ?w0 = (r2, w2)"
      by (cases "createFunction e cfg zp ?w0")
    show ?thesis
    proof (cases "files ?w0 zp")
      case None
      with c have "w2 = ?w0" "isl r2" by (auto simp: createFunction_def readFileSync_def)
      with run absent True c have "w' = ?w0" by (cases r2) (auto simp: deploy_try_absent)
      then show ?thesis by (rule stop)
    next
      case (Some bytes)
      from createFunction_events[OF Some c]
      have t2: "trace w2 = trace ?w0 @ [Send (CreateFunction (createParams cfg bytes))]" by simp
      show ?thesis
      proof (cases r2)
        case (Inl err2)
        with run absent True c have "w' = w2" by (auto simp: deploy_try_absent)
        with t2 w0 have
          "trace w' = trace w @ Send (GetFunction fn) # map Send [CreateFunction (createParams cfg bytes)]"
          "GetFunction fn \<notin> set [CreateFunction (createParams cfg bytes)]" by simp_all
        then show ?thesis by blast
      next
        case (Inr v)
        with run absent True c have "sync_triggers e fn cfg w2 = (r, w')"
          by (auto simp: deploy_try_absent)
        from sync_triggers_events[OF this] obtain T where
          T: "trace w' = trace w2 @ map Send T" "list_all is_mapping_command T" by auto
        with t2 w0 have
          "trace w' = trace w @ Send (GetFunction fn) # map Send (CreateFunction (createParams cfg bytes) # T)"
          "GetFunction fn \<notin> set (CreateFunction (createParams cfg bytes) # T)"
          by (auto simp: list_all_iff)
        then show ?thesis by blast
      qed
    qed
  qed
qed

lemma deploy_try_failed:
  assumes run: "deploy_try e cfg fn zp w = (r, w')"
    and k: "length (trace w) < k" "k < length (trace w')"
    and poll: "trace w' ! k = Send (GetFunction fn)"
    and failed: "observes_failed (respond e (take k (trace w')) (GetFunction fn))"
  shows "r = Inl (new_Error ''Previous update failed'') \<and> Suc k = length (trace w')
     \<and> (\<forall>p. UpdateFunctionConfiguration p \<notin> set (sends_of (new_events w w')))"
proof -
  let ?w0 = "snd (send e (GetFunction fn) w)"
  have w0: "trace ?w0 = trace w @ [Send (GetFunction fn)]" by (simp add: send_def)
  show ?thesis
  proof (cases "awaited (respond e (trace w) (GetFunction fn))")
    case (Inr v)
    obtain r1 w1 where u: "updateFunctionSequential e fn zp cfg ?w0 = (r1, w1)"
      by (cases "updateFunctionSequential e fn zp cfg ?w0")
    have "\<exists>T. trace w' = trace w1 @ map Send T \<and> list_all is_mapping_command T
            \<and> (isl r1 \<longrightarrow> r = r1 \<and> T = [])"
    proof (cases r1)
      case (Inl err)
      with run u have "r = r1" "trace w' = trace w1 @ map Send []"
        by (auto simp: deploy_try_existing[OF Inr])
      with Inl show ?thesis by (intro exI[of _ "[]"]) simp
    next
      case (Inr u1)
      with run u \<open>awaited (respond e (trace w) (GetFunction fn)) = Inr v\<close>
      have "sync_triggers e fn cfg w1 = (r, w')" by (simp add: deploy_try_existing)
      from sync_triggers_events[OF this] Inr show ?thesis by auto
    qed
    then obtain T where T: "trace w' = trace w1 @ map Send T" "list_all is_mapping_command T"
      "isl r1 \<longrightarrow> r = r1 \<and> T = []" by auto
    have noT: "Send (GetFunction fn) \<notin> set (map Send T)"
      using T(2) by (auto simp: list_all_iff)
    have k2: "k < length (trace w1)"
    proof (rule ccontr)
      assume "\<not> k < length (trace w1)"
      then have "length (trace w1) \<le> k" by simp
      with nth_in_suffix[of "trace w1" k "map Send T"] k(2) T(1)
      have "trace w' ! k \<in> set (map Send T)" by simp
      with poll noT show False by simp
    qed
    have same: "trace w1 ! k = Send (GetFunction fn)" "take k (trace w') = take k (trace w1)"
      using k2 T(1) poll by (simp_all add: nth_append)
    have k1: "length (trace ?w0) \<le> k" using k(1) w0 by simp
    from updateFunctionSequential_failed[OF u k1 k2 same(1)] failed same(2)
    have res: "r1 = Inl (new_Error ''Previous update failed'')" "Suc k = length (trace w1)"
      "\<forall>p. UpdateFunctionConfiguration p \<notin> set (sends_of (new_events ?w0 w1))" by auto
    with T(3) have fin: "r = r1" "trace w' = trace w1" using T(1) by auto
    from updateFunctionSequential_prefix[OF u] w0 obtain evs where
      evs: "trace w1 = trace w @ Send (GetFunction fn) # evs" by auto
    then have "new_events w w' = Send (GetFunction fn) # evs" "new_events ?w0 w1 = evs"
      using fin w0 by (simp_all add: new_events_def)
    with res fin show ?thesis by simp
  next
    case (Inl err)
    from deploy_try_absent_events[OF Inl run] obtain cmds where
      c: "trace w' = (trace w @ [Send (GetFunction fn)]) @ map Send cmds" "GetFunction fn \<notin> set cmds"
      by auto
    from k have "length (trace w @ [Send (GetFunction fn)]) \<le> k" by simp
    from nth_in_suffix[OF this, of "map Send cmds"] k(2) c(1)
    have "trace w' ! k \<in> set (map Send cmds)" by simp
    with poll c(2) show ?thesis by auto
  qed
qed

lemma deploy_failed:
  assumes load: "loadConfig e configPath = Inr cfg" "functionName cfg = Some fn"
    and run: "deploy e configPath w = (r, w')"
    and k: "length (trace w) < k" "k < length (trace w')"
    and poll: "trace w' ! k = Send (GetFunction fn)"
    and failed: "observes_failed (respond e (take k (trace w')) (GetFunction fn))"
  shows "r = Inl (new_Error ''Previous update failed'') \<and> Suc k = length (trace w')
     \<and> (\<forall>p. UpdateFunctionConfiguration p \<notin> set (sends_of (new_events w w')))"
proof (cases "fn = []")
  case True
  with load run have "w' = w" by (simp add: deploy_def)
  with k show ?thesis by simp
next
  case False
  show ?thesis
  proof (cases "archive e (source_dir cfg) (include_patterns cfg)")
    case (Inl err)
    with load run False have "trace w' = trace w" by (auto simp: deploy_def createZip_def)
    with k show ?thesis by simp
  next
    case (Inr bytes)
    let ?wz = "w\<lparr>files := (files w)(zip_path cfg fn \<mapsto> bytes)\<rparr>"
    obtain r1 w1 where t: "deploy_try e cfg fn (zip_path cfg fn) ?wz = (r1, w1)"
      by (cases "deploy_try e cfg fn (zip_path cfg fn) ?wz")
    with run have fin: "r = r1" "trace w' = trace w1"
      by (auto simp: deploy_unfold[OF load False Inr] deploy_finally_simps)
    have "r1 = Inl (new_Error ''Previous update failed'') \<and> Suc k = length (trace w1)
        \<and> (\<forall>p. UpdateFunctionConfiguration p \<notin> set (sends_of (new_events ?wz w1)))"
      using deploy_try_failed[OF t, of k] k poll failed fin by simp
    with fin show ?thesis by (simp add: new_events_def)
  qed
qed


text \<open>
  Claim C2. A poll of the readiness poller that is answered with the last-update status
  \<open>Failed\<close> is the last event of the poller, which throws the error
  \<open>Previous update failed\<close>. In a deployment, such a poll (any \<open>GetFunction\<close> after the
  existence query) is the last event of the whole run, the run fails with that error, and
  no \<open>UpdateFunctionConfiguration\<close> has been sent.
\<close>

theorem failed_poll_aborts:
  "(waitForFunctionReady e fn maxWaitMs w = (r, w') \<and> length (trace w) \<le> k
      \<and> k < length (trace w') \<and> trace w' ! k = Send (GetFunction fn)
      \<and> observes_failed (respond e (take k (trace w')) (GetFunction fn))
    \<longrightarrow> r = Inl (new_Error ''Previous update failed'') \<and> Suc k = length (trace w'))
   \<and> (loadConfig e configPath = Inr cfg \<and> functionName cfg = Some fn
      \<and> deploy e configPath v = (r2, v') \<and> length (trace v) < j \<and> j < length (trace v')
      \<and> trace v' ! j = Send (GetFunction fn)
      \<and> observes_failed (respond e (take j (trace v')) (GetFunction fn))
    \<longrightarrow> r2 = Inl (new_Error ''Previous update failed'') \<and> Suc j = length (trace v')
      \<and> (\<forall>p. UpdateFunctionConfiguration p \<notin> set (sends_of (new_events v v'))))"
  using waitForFunctionReady_failed[of e fn maxWaitMs w r w' k]
    deploy_failed[of e configPath cfg fn v r2 v' j]
  by blast

theorem failed_poll_aborts_witness:
  "fst (deploy failing_update None empty_world) = Inl (new_Error ''Previous update failed'')
   \<and> trace (snd (deploy failing_update None empty_world))
       = [Send (GetFunction ''fn''), Send (UpdateFunctionCode ''fn'' ''PK''),
          Send (GetFunction ''fn''), Sleep 3000, Send (GetFunction ''fn'')]
   \<and> fst (waitForFunctionReady failing_update ''fn'' 120000
           (snd (updateWithRetry failing_update (UpdateFunctionCode ''fn'' ''PK'')
              (snd (send failing_update (GetFunction ''fn'') zip_world)))))
       = Inl (new_Error ''Previous update failed'')"
proof -
  let ?d = "deploy failing_update None empty_world"
  let ?w1 = "snd (updateWithRetry failing_update (UpdateFunctionCode ''fn'' ''PK'')
              (snd (send failing_update (GetFunction ''fn'') zip_world)))"
  let ?p = "waitForFunctionReady failing_update ''fn'' 120000 ?w1"
  have tr: "trace (snd ?d)
       = [Send (GetFunction ''fn''), Send (UpdateFunctionCode ''fn'' ''PK''),
          Send (GetFunction ''fn''), Sleep 3000, Send (GetFunction ''fn'')]"
    by (simp add: failing_update_def run_defs example_defs updateWithRetry_unfold)
  have t1: "trace ?w1 = [Send (GetFunction ''fn''), Send (UpdateFunctionCode ''fn'' ''PK'')]"
    by (simp add: failing_update_def run_defs example_defs updateWithRetry_unfold)
  have tp: "trace (snd ?p)
       = [Send (GetFunction ''fn''), Send (UpdateFunctionCode ''fn'' ''PK''),
          Send (GetFunction ''fn''), Sleep 3000, Send (GetFunction ''fn'')]"
    by (simp add: failing_update_def run_defs example_defs updateWithRetry_unfold)
  have obs: "observes_failed (respond failing_update
       [Send (GetFunction ''fn''), Send (UpdateFunctionCode ''fn'' ''PK''),
          Send (GetFunction ''fn''), Sleep 3000] (GetFunction ''fn''))"
    by (simp add: failing_update_def example_defs observes_failed_def)
  have cfgs: "loadConfig failing_update None = Inr timeout_config"
    "functionName timeout_config = Some ''fn''"
    by (simp_all add: failing_update_def example_defs)
  note inst = failed_poll_aborts[where e = failing_update and fn = "''fn''" and k = 4 and j = 4
      and maxWaitMs = 120000 and w = ?w1 and r = "fst ?p" and w' = "snd ?p"
      and configPath = None and cfg = timeout_config
      and v = empty_world and ?r2.0 = "fst ?d" and v' = "snd ?d"]
  from inst tr t1 tp obs cfgs show ?thesis by (simp add: empty_world_def)
qed






section \<open>What a synchronization pass sends\<close>

lemma count_list_map_inj:
  "distinct xs \<Longrightarrow> inj_on f (set xs) \<Longrightarrow> x \<in> set xs \<Longrightarrow> count_list (map f xs) (f x) = 1"
proof (induction xs)
  case Nil
  then show ?case by simp
next
  case (Cons a xs)
  show ?case
  proof (cases "x = a")
    case True
    with Cons.prems have "f a \<notin> set (map f xs)" by (auto simp: inj_on_def)
    with True show ?thesis by (simp add: count_list_0_iff)
  next
    case False
    with Cons.prems have "f x \<noteq> f a" "x \<in> set xs" by (auto simp: inj_on_def)
    with Cons show ?thesis by simp
  qed
qed

lemma existingMapping_Some:
  "existingMapping existing t = Some m \<Longrightarrow>
     m \<in> set (or_obj (EventSourceMappings existing) []) \<and> EventSourceArn m = queueArn t"
  by (auto simp: existingMapping_def or_obj_def find_Some_iff split: option.splits)

lemma trigger_command_inj:
  assumes "distinct (map queueArn triggers)"
    "distinct (map UUID (or_obj (EventSourceMappings existing) []))"
  shows "inj_on (trigger_command fn existing) (set triggers)"
proof (rule inj_onI)
  fix t t'
  assume t: "t \<in> set triggers" "t' \<in> set triggers"
    and eq: "trigger_command fn existing t = trigger_command fn existing t'"
  have arn: "queueArn t = queueArn t' \<Longrightarrow> t = t'"
    using assms(1) t by (auto simp: distinct_map inj_on_def)
  have uuid: "\<And>m m'. m \<in> set (or_obj (EventSourceMappings existing) []) \<Longrightarrow>
      m' \<in> set (or_obj (EventSourceMappings existing) []) \<Longrightarrow> UUID m = UUID m' \<Longrightarrow> m = m'"
    using assms(2) by (auto simp: distinct_map inj_on_def)
  show "t = t'"
  proof (cases "existingMapping existing t")
    case None
    with eq have "queueArn t = queueArn t'"
      by (auto simp: trigger_command_def split: option.splits)
    then show ?thesis by (rule arn)
  next
    case (Some m)
    with eq obtain m' where m': "existingMapping existing t' = Some m'" "UUID m = UUID m'"
      by (auto simp: trigger_command_def split: option.splits)
    from existingMapping_Some[OF Some] existingMapping_Some[OF m'(1)] uuid m'(2)
    have "queueArn t = queueArn t'" by metis
    then show ?thesis by (rule arn)
  qed
qed

text \<open>What a pass that ends without an error has sent, and how often.\<close>

lemma sync_pass_counts:
  assumes ne: "triggers \<noteq> []"
    and listed: "awaited (respond e (trace w) (ListEventSourceMappings fn)) = Inr existing"
    and dS: "distinct (map queueArn triggers)"
    and dR: "distinct (map UUID (or_obj (EventSourceMappings existing) []))"
    and run: "updateEventSourceMappings e fn triggers w = (Inr (), w')"
  shows "(let R = or_obj (EventSourceMappings existing) [];
             unconfigured = filter (\<lambda>m. EventSourceArn m \<notin> queueArn ` set triggers) R;
             cmds = sends_of (new_events w w')
         in new_events w w' = map Send
              (ListEventSourceMappings fn # map (trigger_command fn existing) triggers
               @ map (\<lambda>m. DeleteEventSourceMapping (UUID m)) unconfigured)
          \<and> (\<forall>t\<in>set triggers.
                case find (\<lambda>m. EventSourceArn m = queueArn t) R of
                  Some m \<Rightarrow>
                    count_list cmds (UpdateEventSourceMapping (UUID m) (mappingSettings t)) = 1
                | None \<Rightarrow>
                    count_list cmds (CreateEventSourceMapping (queueArn t) fn (mappingSettings t)) = 1)
          \<and> (\<forall>m\<in>set unconfigured. count_list cmds (DeleteEventSourceMapping (UUID m)) = 1))"
proof -
  let ?R = "or_obj (EventSourceMappings existing) []"
  let ?U = "filter (\<lambda>m. EventSourceArn m \<notin> queueArn ` set triggers) ?R"
  let ?tc = "trigger_command fn existing"
  let ?del = "\<lambda>m. DeleteEventSourceMapping (UUID m)"
  let ?cmds = "ListEventSourceMappings fn # map ?tc triggers @ map ?del ?U"
  from updateEventSourceMappings_success[OF ne listed run]
  have ev: "new_events w w' = map Send ?cmds" by (simp add: new_events_def)
  have sends: "sends_of (map Send cs) = cs" for cs by (induction cs) simp_all
  have cmds: "sends_of (new_events w w') = ?cmds" unfolding ev by (rule sends)
  have tc_not_del: "?tc t \<notin> set (map ?del ?U)" for t
    by (auto simp: trigger_command_def split: option.splits)
  have del_not_tc: "?del m \<notin> set (map ?tc triggers)" for m :: event_source_mapping
    by (auto simp: trigger_command_def split: option.splits)
  have cnt_t: "count_list ?cmds (?tc t) = 1" if "t \<in> set triggers" for t
  proof -
    have "count_list (map ?tc triggers) (?tc t) = 1"
      using count_list_map_inj[OF _ trigger_command_inj[OF dS dR] that] dS
      by (simp add: distinct_map)
    moreover have "count_list (map ?del ?U) (?tc t) = 0"
      using tc_not_del[of t] by (simp add: count_list_0_iff)
    moreover have "?tc t \<noteq> ListEventSourceMappings fn"
      by (auto simp: trigger_command_def split: option.splits)
    ultimately show ?thesis by simp
  qed
  have find_eq: "find (\<lambda>m. EventSourceArn m = queueArn t) ?R = existingMapping existing t" for t
    by (simp add: existingMapping_def or_obj_def split: option.splits)
  have part2: "\<forall>t\<in>set triggers.
                case find (\<lambda>m. EventSourceArn m = queueArn t) ?R of
                  Some m \<Rightarrow>
                    count_list ?cmds (UpdateEventSourceMapping (UUID m) (mappingSettings t)) = 1
                | None \<Rightarrow>
                    count_list ?cmds (CreateEventSourceMapping (queueArn t) fn (mappingSettings t)) = 1"
  proof
    fix t assume t: "t \<in> set triggers"
    from cnt_t[OF t] show "case find (\<lambda>m. EventSourceArn m = queueArn t) ?R of
                  Some m \<Rightarrow>
                    count_list ?cmds (UpdateEventSourceMapping (UUID m) (mappingSettings t)) = 1
                | None \<Rightarrow>
                    count_list ?cmds (CreateEventSourceMapping (queueArn t) fn (mappingSettings t)) = 1"
      unfolding find_eq by (simp add: trigger_command_def split: option.splits)
  qed
  have dU: "distinct ?U" "inj_on ?del (set ?U)"
    using dR by (auto simp: distinct_map inj_on_def)
  have part3: "\<forall>m\<in>set ?U. count_list ?cmds (?del m) = 1"
  proof
    fix m assume m: "m \<in> set ?U"
    have "count_list (map ?del ?U) (?del m) = 1"
      using count_list_map_inj[OF dU m] .
    moreover have "count_list (map ?tc triggers) (?del m) = 0"
      using del_not_tc[of m] by (simp add: count_list_0_iff)
    ultimately show "count_list ?cmds (?del m) = 1" by simp
  qed
  show ?thesis unfolding Let_def cmds using ev part2 part3 by simp
qed

text \<open>
  Claim C4, as amended. A synchronization pass over a non-empty list of triggers begins
  with the listing call. Whenever one of its calls is answered with an error, that call
  is the last event of the pass and its error is the result; and an error result is
  always the error of the last call sent. If the listing succeeds, the calls sent are an
  initial part of this sequence: the listing; then, in the configured order, for every
  trigger one update of the first mapping bound to its queue, or one create if there is
  none; then, in the listed order, one delete for every mapping whose queue is not
  configured. A pass that ends without an error has sent the whole sequence, and if the
  triggers have pairwise different queues and the listed mappings pairwise different
  identifiers, each of these commands occurs exactly once.
\<close>

theorem sync_calls:
  assumes ne: "triggers \<noteq> []"
    and run: "updateEventSourceMappings e fn triggers w = (r, w')"
  shows "(\<exists>rest. new_events w w' = Send (ListEventSourceMappings fn) # rest)
   \<and> (\<forall>k c err. length (trace w) \<le> k \<and> k < length (trace w') \<and> trace w' ! k = Send c
          \<and> awaited (respond e (take k (trace w')) c) = Inl err
        \<longrightarrow> r = Inl err \<and> Suc k = length (trace w'))
   \<and> (\<forall>err. r = Inl err \<longrightarrow>
         (\<exists>h c. trace w' = h @ [Send c] \<and> length (trace w) \<le> length h
            \<and> awaited (respond e h c) = Inl err))
   \<and> (\<forall>existing. awaited (respond e (trace w) (ListEventSourceMappings fn)) = Inr existing \<longrightarrow>
        (let R = or_obj (EventSourceMappings existing) [];
             unconfigured = filter (\<lambda>m. EventSourceArn m \<notin> queueArn ` set triggers) R;
             expected = ListEventSourceMappings fn # map (trigger_command fn existing) triggers
                        @ map (\<lambda>m. DeleteEventSourceMapping (UUID m)) unconfigured;
             cmds = sends_of (new_events w w')
         in (\<exists>n. 0 < n \<and> new_events w w' = map Send (take n expected))
          \<and> (r = Inr () \<longrightarrow> new_events w w' = map Send expected
               \<and> (distinct (map queueArn triggers) \<and> distinct (map UUID R) \<longrightarrow>
                    (\<forall>t\<in>set triggers.
                       case find (\<lambda>m. EventSourceArn m = queueArn t) R of
                         Some m \<Rightarrow>
                           count_list cmds
                             (UpdateEventSourceMapping (UUID m) (mappingSettings t)) = 1
                       | None \<Rightarrow>
                           count_list cmds
                             (CreateEventSourceMapping (queueArn t) fn (mappingSettings t)) = 1)
                  \<and> (\<forall>m\<in>set unconfigured.
                       count_list cmds (DeleteEventSourceMapping (UUID m)) = 1)))))"
proof -
  let ?L = "ListEventSourceMappings fn"
  let ?tail = "case awaited (respond e (trace w) ?L) of
           Inl err \<Rightarrow> []
         | Inr existing \<Rightarrow>
             map (trigger_command fn existing) triggers
             @ map (\<lambda>m. DeleteEventSourceMapping (UUID m))
                 (filter (\<lambda>m. EventSourceArn m \<notin> queueArn ` set triggers)
                    (or_obj (EventSourceMappings existing) []))"
  have sa: "send_all e (?L # ?tail) w = (r, w')"
    using run updateEventSourceMappings_send_all[OF ne, of e fn w] by simp
  from send_all_prefix[OF sa] obtain n where
    n: "0 < n" "trace w' = trace w @ map Send (take n (?L # ?tail))" by auto
  have p1: "\<exists>rest. new_events w w' = Send ?L # rest"
    using n by (cases n) (auto simp: new_events_def)
  have p2: "\<forall>k c err. length (trace w) \<le> k \<and> k < length (trace w') \<and> trace w' ! k = Send c
          \<and> awaited (respond e (take k (trace w')) c) = Inl err
        \<longrightarrow> r = Inl err \<and> Suc k = length (trace w')"
    using send_all_failed[OF sa] by blast
  have p3: "\<forall>err. r = Inl err \<longrightarrow>
         (\<exists>h c. trace w' = h @ [Send c] \<and> length (trace w) \<le> length h
            \<and> awaited (respond e h c) = Inl err)"
    using send_all_error_last[of e "?L # ?tail" w _ w'] sa by blast
  have p4: "let R = or_obj (EventSourceMappings existing) [];
             unconfigured = filter (\<lambda>m. EventSourceArn m \<notin> queueArn ` set triggers) R;
             expected = ListEventSourceMappings fn # map (trigger_command fn existing) triggers
                        @ map (\<lambda>m. DeleteEventSourceMapping (UUID m)) unconfigured;
             cmds = sends_of (new_events w w')
         in (\<exists>n. 0 < n \<and> new_events w w' = map Send (take n expected))
          \<and> (r = Inr () \<longrightarrow> new_events w w' = map Send expected
               \<and> (distinct (map queueArn triggers) \<and> distinct (map UUID R) \<longrightarrow>
                    (\<forall>t\<in>set triggers.
                       case find (\<lambda>m. EventSourceArn m = queueArn t) R of
                         Some m \<Rightarrow>
                           count_list cmds
                             (UpdateEventSourceMapping (UUID m) (mappingSettings t)) = 1
                       | None \<Rightarrow>
                           count_list cmds
                             (CreateEventSourceMapping (queueArn t) fn (mappingSettings t)) = 1)
                  \<and> (\<forall>m\<in>set unconfigured.
                       count_list cmds (DeleteEventSourceMapping (UUID m)) = 1)))"
    if listed: "awaited (respond e (trace w) ?L) = Inr existing" for existing
  proof -
    let ?R = "or_obj (EventSourceMappings existing) []"
    let ?U = "filter (\<lambda>m. EventSourceArn m \<notin> queueArn ` set triggers) ?R"
    let ?expected = "?L # map (trigger_command fn existing) triggers
                        @ map (\<lambda>m. DeleteEventSourceMapping (UUID m)) ?U"
    have a: "\<exists>n. 0 < n \<and> new_events w w' = map Send (take n ?expected)"
      using n listed by (auto simp: new_events_def)
    have b: "new_events w w' = map Send ?expected
               \<and> (distinct (map queueArn triggers) \<and> distinct (map UUID ?R) \<longrightarrow>
                    (\<forall>t\<in>set triggers.
                       case find (\<lambda>m. EventSourceArn m = queueArn t) ?R of
                         Some m \<Rightarrow>
                           count_list (sends_of (new_events w w'))
                             (UpdateEventSourceMapping (UUID m) (mappingSettings t)) = 1
                       | None \<Rightarrow>
                           count_list (sends_of (new_events w w'))
                             (CreateEventSourceMapping (queueArn t) fn (mappingSettings t)) = 1)
                  \<and> (\<forall>m\<in>set ?U.
                       count_list (sends_of (new_events w w'))
                         (DeleteEventSourceMapping (UUID m)) = 1))"
      if ok: "r = Inr ()"
    proof -
      have run': "updateEventSourceMappings e fn triggers w = (Inr (), w')" using run ok by simp
      have ev: "new_events w w' = map Send ?expected"
        using updateEventSourceMappings_success[OF ne listed run'] by (simp add: new_events_def)
      have cnt: "(\<forall>t\<in>set triggers.
                       case find (\<lambda>m. EventSourceArn m = queueArn t) ?R of
                         Some m \<Rightarrow>
                           count_list (sends_of (new_events w w'))
                             (UpdateEventSourceMapping (UUID m) (mappingSettings t)) = 1
                       | None \<Rightarrow>
                           count_list (sends_of (new_events w w'))
                             (CreateEventSourceMapping (queueArn t) fn (mappingSettings t)) = 1)
                  \<and> (\<forall>m\<in>set ?U.
                       count_list (sends_of (new_events w w'))
                         (DeleteEventSourceMapping (UUID m)) = 1)"
        if d: "distinct (map queueArn triggers)" "distinct (map UUID ?R)"
        using sync_pass_counts[OF ne listed d run', unfolded Let_def] by (elim conjE) (intro conjI, assumption+)
      from ev cnt show ?thesis by blast
    qed
    from a b show ?thesis unfolding Let_def by blast
  qed
  from p1 p2 p3 p4 show ?thesis by blast
qed

theorem sync_calls_witness:
  "new_events empty_world
     (snd (updateEventSourceMappings sync_ok ''fn'' [trigger_a, trigger_b] empty_world))
   = [Send (ListEventSourceMappings ''fn''),
      Send (UpdateEventSourceMapping ''u1'' (mappingSettings trigger_a)),
      Send (CreateEventSourceMapping ''arn:B'' ''fn'' (mappingSettings trigger_b)),
      Send (DeleteEventSourceMapping ''u3'')]
   \<and> fst (updateEventSourceMappings sync_rejected ''fn'' [trigger_a, trigger_b] empty_world)
       = Inl denied
   \<and> length (trace (snd (updateEventSourceMappings sync_rejected ''fn'' [trigger_a, trigger_b]
                          empty_world))) = 2"
proof -
  let ?ok = "updateEventSourceMappings sync_ok ''fn'' [trigger_a, trigger_b] empty_world"
  let ?rej = "updateEventSourceMappings sync_rejected ''fn'' [trigger_a, trigger_b] empty_world"
  have ne: "[trigger_a, trigger_b] \<noteq> []" by simp
  have ok: "fst ?ok = Inr ()"
    by (simp add: sync_ok_def run_defs example_defs)
  have listed:
    "awaited (respond sync_ok (trace empty_world) (ListEventSourceMappings ''fn'')) = Inr listing"
    by (simp add: sync_ok_def run_defs example_defs)
  note a = sync_calls[OF ne, of sync_ok "''fn''" empty_world "fst ?ok" "snd ?ok", simplified]
  from a[THEN conjunct2, THEN conjunct2, THEN conjunct2, rule_format, OF listed] ok
  have first: "new_events empty_world (snd ?ok)
   = [Send (ListEventSourceMappings ''fn''),
      Send (UpdateEventSourceMapping ''u1'' (mappingSettings trigger_a)),
      Send (CreateEventSourceMapping ''arn:B'' ''fn'' (mappingSettings trigger_b)),
      Send (DeleteEventSourceMapping ''u3'')]"
    by (simp add: Let_def trigger_command_def existingMapping_def or_obj_def listing_def
          trigger_a_def trigger_b_def)
  have ev: "1 < length (trace (snd ?rej))"
    "trace (snd ?rej) ! 1 = Send (UpdateEventSourceMapping ''u1'' (mappingSettings trigger_a))"
    "take 1 (trace (snd ?rej)) = [Send (ListEventSourceMappings ''fn'')]"
    by (simp_all add: sync_rejected_def run_defs example_defs)
  have ans: "awaited (respond sync_rejected [Send (ListEventSourceMappings ''fn'')]
                (UpdateEventSourceMapping ''u1'' (mappingSettings trigger_a))) = Inl denied"
    by (simp add: sync_rejected_def run_defs example_defs)
  note b = sync_calls[OF ne, of sync_rejected "''fn''" empty_world "fst ?rej" "snd ?rej", simplified]
  from b[THEN conjunct2, THEN conjunct1, rule_format,
         of 1 "UpdateEventSourceMapping ''u1'' (mappingSettings trigger_a)" denied]
    ev ans
  have second: "fst ?rej = Inl denied \<and> length (trace (snd ?rej)) = 2"
    by (simp add: empty_world_def)
  from first second show ?thesis by simp
qed

text \<open>
  Claim C4 as stated fails for a pass in which a call is rejected: with triggers for A
  and B, mappings for A and C and the update for A rejected, the pass ends with that
  error after the listing and the update; B is never created and C never deleted.
\<close>

theorem sync_calls_counterexample:
  "sends_of (new_events empty_world
     (snd (updateEventSourceMappings sync_rejected ''fn'' [trigger_a, trigger_b] empty_world)))
   = [ListEventSourceMappings ''fn'', UpdateEventSourceMapping ''u1'' (mappingSettings trigger_a)]
   \<and> fst (updateEventSourceMappings sync_rejected ''fn'' [trigger_a, trigger_b] empty_world)
       = Inl denied
   \<and> existingMapping listing trigger_b = None
   \<and> EventSourceArn \<lparr>UUID = ''u3'', EventSourceArn = ''arn:C''\<rparr>
        \<notin> queueArn ` set [trigger_a, trigger_b]"
  by (simp add: sync_rejected_def run_defs example_defs)


section \<open>Creating a function, cleaning up, and the older path\<close>

lemma deploy_absent:
  assumes load: "loadConfig e configPath = Inr cfg" "functionName cfg = Some fn" "fn \<noteq> []"
    "archive e (source_dir cfg) (include_patterns cfg) = Inr bytes"
    and absent: "awaited (respond e (trace w) (GetFunction fn)) = Inl err"
      "err_name err = ''ResourceNotFoundException''"
  shows "deploy e configPath w =
     (case (if \<not> truthy_str (roleArn cfg)
            then (Inl (new_Error ''roleArn is required for creating new functions''),
                  snd (send e (GetFunction fn) (w\<lparr>files := (files w)(zip_path cfg fn \<mapsto> bytes)\<rparr>)))
            else (case createFunction e cfg (zip_path cfg fn)
                         (snd (send e (GetFunction fn)
                            (w\<lparr>files := (files w)(zip_path cfg fn \<mapsto> bytes)\<rparr>))) of
                    (Inl err, w2) \<Rightarrow> (Inl err, w2)
                  | (Inr u, w2) \<Rightarrow> sync_triggers e fn cfg w2)) of
        (r, w1) \<Rightarrow> (r, deploy_finally (zip_path cfg fn) w1))"
proof -
  let ?wz = "w\<lparr>files := (files w)(zip_path cfg fn \<mapsto> bytes)\<rparr>"
  have "awaited (respond e (trace ?wz) (GetFunction fn)) = Inl err" using absent(1) by simp
  from deploy_try_absent[OF this absent(2)] show ?thesis
    by (simp only: deploy_unfold[OF load])
qed

text \<open>
  Claim C5. When the existence query is answered with \<open>ResourceNotFoundException\<close> and the
  configuration has no role (none, or the empty string), the deployment fails with the
  configuration error \<open>roleArn is required for creating new functions\<close>, and the existence
  query is the only remote call of the run: nothing is created, updated or deleted.
\<close>

theorem missing_role_fails:
  assumes load: "loadConfig e configPath = Inr cfg" "functionName cfg = Some fn" "fn \<noteq> []"
    "archive e (source_dir cfg) (include_patterns cfg) = Inr bytes"
    and absent: "awaited (respond e (trace w) (GetFunction fn)) = Inl err"
      "err_name err = ''ResourceNotFoundException''"
    and norole: "\<not> truthy_str (roleArn cfg)"
  shows "fst (deploy e configPath w)
           = Inl (new_Error ''roleArn is required for creating new functions'')
     \<and> new_events w (snd (deploy e configPath w)) = [Send (GetFunction fn)]"
  using norole
  by (simp add: deploy_absent[OF load absent] deploy_finally_simps send_def new_events_def)

theorem missing_role_fails_witness:
  "fst (deploy absent_function None empty_world)
           = Inl (new_Error ''roleArn is required for creating new functions'')
     \<and> new_events empty_world (snd (deploy absent_function None empty_world))
           = [Send (GetFunction ''fn'')]"
proof -
  have pre: "loadConfig absent_function None = Inr bare_config"
    "functionName bare_config = Some ''fn''" "''fn'' \<noteq> []"
    "archive absent_function (source_dir bare_config) (include_patterns bare_config) = Inr ''PK''"
    "awaited (respond absent_function (trace empty_world) (GetFunction ''fn'')) = Inl not_found"
    "err_name not_found = ''ResourceNotFoundException''"
    "\<not> truthy_str (roleArn bare_config)"
    by (simp_all add: absent_function_def run_defs example_defs)
  from missing_role_fails[OF pre] show ?thesis .
qed

text \<open>
  Claim C6, as amended. When the existence query is answered with
  \<open>ResourceNotFoundException\<close> and a non-empty role is configured, the run sends the
  existence query, then one \<open>CreateFunction\<close>, then only event-source-mapping commands: no
  code update, no configuration update, no poll. The create request carries the function
  name, the role, the archive, the environment and the layers (none if absent) as
  configured. It carries handler, runtime, description, timeout and memory size as
  configured when the value is truthy (a non-empty string, a number other than 0); when
  the field is absent, the empty string or 0, it carries the default: handler
  \<open>lambda.handler\<close>, runtime \<open>nodejs22.x\<close>, description \<open>Deployed with lambda-deployer\<close>,
  timeout 30, memory 128.
\<close>

theorem create_call:
  assumes load: "loadConfig e configPath = Inr cfg" "functionName cfg = Some fn" "fn \<noteq> []"
    "archive e (source_dir cfg) (include_patterns cfg) = Inr bytes"
    and absent: "awaited (respond e (trace w) (GetFunction fn)) = Inl err"
      "err_name err = ''ResourceNotFoundException''"
    and role: "truthy_str (roleArn cfg)"
  shows "\<exists>p T. new_events w (snd (deploy e configPath w))
             = Send (GetFunction fn) # Send (CreateFunction p) # map Send T
     \<and> list_all is_mapping_command T
     \<and> FunctionName p = Some fn \<and> Role p = roleArn cfg \<and> Code p = bytes
     \<and> Environment p = environment cfg
     \<and> (\<forall>v. handler cfg = Some v \<and> v \<noteq> [] \<longrightarrow> Handler p = v)
     \<and> (handler cfg = None \<or> handler cfg = Some [] \<longrightarrow> Handler p = ''lambda.handler'')
     \<and> (\<forall>v. runtime cfg = Some v \<and> v \<noteq> [] \<longrightarrow> Runtime p = v)
     \<and> (runtime cfg = None \<or> runtime cfg = Some [] \<longrightarrow> Runtime p = ''nodejs22.x'')
     \<and> (\<forall>v. description cfg = Some v \<and> v \<noteq> [] \<longrightarrow> Description p = Some v)
     \<and> (description cfg = None \<or> description cfg = Some []
          \<longrightarrow> Description p = Some ''Deployed with lambda-deployer'')
     \<and> (\<forall>n. timeout cfg = Some n \<and> n \<noteq> 0 \<longrightarrow> Timeout p = n)
     \<and> (timeout cfg = None \<or> timeout cfg = Some 0 \<longrightarrow> Timeout p = 30)
     \<and> (\<forall>n. memorySize cfg = Some n \<and> n \<noteq> 0 \<longrightarrow> MemorySize p = n)
     \<and> (memorySize cfg = None \<or> memorySize cfg = Some 0 \<longrightarrow> MemorySize p = 128)
     \<and> (\<forall>l. layers cfg = Some l \<longrightarrow> Layers p = l)
     \<and> (layers cfg = None \<longrightarrow> Layers p = [])"
proof -
  let ?zp = "zip_path cfg fn"
  let ?w0 = "snd (send e (GetFunction fn) (w\<lparr>files := (files w)(?zp \<mapsto> bytes)\<rparr>))"
  let ?p = "createParams cfg bytes"
  have w0: "trace ?w0 = trace w @ [Send (GetFunction fn)]" "files ?w0 ?zp = Some bytes"
    by (simp_all add: send_def)
  obtain r2 w2 where c: "createFunction e cfg ?zp ?w0 = (r2, w2)"
    by (cases "createFunction e cfg ?zp ?w0")
  from createFunction_events[OF w0(2) c]
  have t2: "trace w2 = trace ?w0 @ [Send (CreateFunction ?p)]" by simp
  have "\<exists>T. trace (snd (deploy e configPath w)) = trace w2 @ map Send T
          \<and> list_all is_mapping_command T"
  proof (cases r2)
    case (Inl err2)
    with c role have "trace (snd (deploy e configPath w)) = trace w2 @ map Send []"
      by (simp add: deploy_absent[OF load absent] deploy_finally_simps)
    then show ?thesis by (intro exI[of _ "[]"]) simp
  next
    case (Inr v)
    obtain r3 w3 where s: "sync_triggers e fn cfg w2 = (r3, w3)"
      by (cases "sync_triggers e fn cfg w2")
    with c role Inr have "trace (snd (deploy e configPath w)) = trace w3"
      by (simp add: deploy_absent[OF load absent] deploy_finally_simps)
    with sync_triggers_events[OF s] show ?thesis by auto
  qed
  then obtain T where T: "trace (snd (deploy e configPath w)) = trace w2 @ map Send T"
    "list_all is_mapping_command T" by auto
  have ev: "new_events w (snd (deploy e configPath w))
             = Send (GetFunction fn) # Send (CreateFunction ?p) # map Send T"
    using T(1) t2 w0(1) by (simp add: new_events_def)
  have fields: "FunctionName ?p = Some fn \<and> Role ?p = roleArn cfg \<and> Code ?p = bytes
     \<and> Environment ?p = environment cfg
     \<and> (\<forall>v. handler cfg = Some v \<and> v \<noteq> [] \<longrightarrow> Handler ?p = v)
     \<and> (handler cfg = None \<or> handler cfg = Some [] \<longrightarrow> Handler ?p = ''lambda.handler'')
     \<and> (\<forall>v. runtime cfg = Some v \<and> v \<noteq> [] \<longrightarrow> Runtime ?p = v)
     \<and> (runtime cfg = None \<or> runtime cfg = Some [] \<longrightarrow> Runtime ?p = ''nodejs22.x'')
     \<and> (\<forall>v. description cfg = Some v \<and> v \<noteq> [] \<longrightarrow> Description ?p = Some v)
     \<and> (description cfg = None \<or> description cfg = Some []
          \<longrightarrow> Description ?p = Some ''Deployed with lambda-deployer'')
     \<and> (\<forall>n. timeout cfg = Some n \<and> n \<noteq> 0 \<longrightarrow> Timeout ?p = n)
     \<and> (timeout cfg = None \<or> timeout cfg = Some 0 \<longrightarrow> Timeout ?p = 30)
     \<and> (\<forall>n. memorySize cfg = Some n \<and> n \<noteq> 0 \<longrightarrow> MemorySize ?p = n)
     \<and> (memorySize cfg = None \<or> memorySize cfg = Some 0 \<longrightarrow> MemorySize ?p = 128)
     \<and> (\<forall>l. layers cfg = Some l \<longrightarrow> Layers ?p = l)
     \<and> (layers cfg = None \<longrightarrow> Layers ?p = [])"
    using load(2)
    by (simp add: createParams_def or_str_def or_num_def or_obj_def truthy_obj_def
          split: option.splits)
  from ev T(2) fields show ?thesis by (intro exI[of _ ?p] exI[of _ T]) blast
qed

theorem create_call_witness:
  "\<exists>p. new_events empty_world (snd (deploy absent_function_with_role None empty_world))
         = [Send (GetFunction ''fn''), Send (CreateFunction p)]
     \<and> Role p = Some ''arn:aws:iam::123456789012:role/lambda-role''
     \<and> MemorySize p = 256 \<and> Timeout p = 30 \<and> Handler p = ''lambda.handler''
     \<and> Runtime p = ''nodejs22.x'' \<and> Layers p = []"
proof -
  let ?d = "deploy absent_function_with_role None empty_world"
  have pre: "loadConfig absent_function_with_role None = Inr role_config"
    "functionName role_config = Some ''fn''" "''fn'' \<noteq> []"
    "archive absent_function_with_role (source_dir role_config) (include_patterns role_config)
       = Inr ''PK''"
    "awaited (respond absent_function_with_role (trace empty_world) (GetFunction ''fn''))
       = Inl not_found"
    "err_name not_found = ''ResourceNotFoundException''"
    "truthy_str (roleArn role_config)"
    by (simp_all add: absent_function_with_role_def run_defs example_defs)
  have len: "length (new_events empty_world (snd ?d)) = 2"
    by (simp add: absent_function_with_role_def run_defs example_defs)
  have cfg: "roleArn role_config = Some ''arn:aws:iam::123456789012:role/lambda-role''"
    "memorySize role_config = Some 256" "timeout role_config = None" "handler role_config = None"
    "runtime role_config = None" "layers role_config = None"
    by (simp_all add: example_defs)
  from create_call[OF pre] obtain p T where
    s: "new_events empty_world (snd ?d) = Send (GetFunction ''fn'') # Send (CreateFunction p) # map Send T"
    "Role p = roleArn role_config"
    "\<forall>n. memorySize role_config = Some n \<and> n \<noteq> 0 \<longrightarrow> MemorySize p = n"
    "timeout role_config = None \<or> timeout role_config = Some 0 \<longrightarrow> Timeout p = 30"
    "handler role_config = None \<or> handler role_config = Some [] \<longrightarrow> Handler p = ''lambda.handler''"
    "runtime role_config = None \<or> runtime role_config = Some [] \<longrightarrow> Runtime p = ''nodejs22.x''"
    "layers role_config = None \<longrightarrow> Layers p = []"
    by (elim exE conjE) (rule that, assumption+)
  from s(1) len have "T = []" by simp
  with s cfg show ?thesis by (intro exI[of _ p]) simp
qed

text \<open>
  Claim C6 as stated fails for a field that is supplied with a falsy value: a
  configuration whose description is the empty string is created with the default
  description, not with the one supplied.
\<close>

theorem create_call_counterexample:
  "description blank_description_config = Some []
   \<and> sends_of (new_events empty_world
        (snd (deploy absent_function_blank_description None empty_world)))
       = [GetFunction ''fn'', CreateFunction (createParams blank_description_config ''PK'')]
   \<and> Description (createParams blank_description_config ''PK'')
       = Some ''Deployed with lambda-deployer''"
  by (simp add: absent_function_blank_description_def blank_description_config_def
        createParams_def run_defs example_defs)

text \<open>
  Claim C7. A synchronization pass over an empty trigger list returns at once and leaves
  the world as it was, whatever the remote would have answered: no list, create, update
  or delete call. The same holds in a deployment whose configuration has an empty or no
  trigger list.
\<close>

theorem empty_triggers_no_calls:
  "updateEventSourceMappings e fn [] w = (Inr (), w)
   \<and> sync_triggers e fn (cfg\<lparr>sqsTriggers := Some []\<rparr>) w = (Inr (), w)
   \<and> sync_triggers e fn (cfg\<lparr>sqsTriggers := None\<rparr>) w = (Inr (), w)"
  by (simp add: updateEventSourceMappings_def sync_triggers_def)

theorem empty_triggers_no_calls_witness:
  "updateEventSourceMappings sync_ok ''fn'' [] empty_world = (Inr (), empty_world)"
  using empty_triggers_no_calls[of sync_ok "''fn''" empty_world bare_config] by simp

text \<open>
  Claim C8. In a deployment that got as far as building its archive, the archive is on
  disk when \<open>createZip\<close> resolves and absent in the world \<open>deploy\<close> ends in, whether it
  ends with a result or an error. The command line reports a failure in exactly that
  world, so the archive is gone before the error is reported.
\<close>

theorem artifact_removed:
  assumes load: "loadConfig e configPath = Inr cfg" "functionName cfg = Some fn" "fn \<noteq> []"
    "archive e (source_dir cfg) (include_patterns cfg) = Inr bytes"
  shows "files (snd (createZip e (source_dir cfg) (zip_path cfg fn) (include_patterns cfg) w))
            (zip_path cfg fn) = Some bytes
     \<and> files (snd (deploy e configPath w)) (zip_path cfg fn) = None
     \<and> files (snd (cli e configPath w)) (zip_path cfg fn) = None
     \<and> (\<forall>err. fst (deploy e configPath w) = Inl err \<longrightarrow>
           cli e configPath w =
             (1, (snd (deploy e configPath w))
                   \<lparr>stderr := stderr (snd (deploy e configPath w))
                               @ [''Deployment failed: '' @ err_message err]\<rparr>))"
proof -
  have d: "files (snd (deploy e configPath w)) (zip_path cfg fn) = None"
    by (simp add: deploy_unfold[OF load] deploy_finally_simps split: prod.splits)
  have z: "files (snd (createZip e (source_dir cfg) (zip_path cfg fn) (include_patterns cfg) w))
            (zip_path cfg fn) = Some bytes"
    using load(4) by (simp add: createZip_def)
  show ?thesis using d z
    by (cases "deploy e configPath w") (auto simp: cli_def split: sum.splits)
qed

theorem artifact_removed_witness:
  "files (snd (deploy failing_update None empty_world)) ''fn.zip'' = None
   \<and> files (snd (cli failing_update None empty_world)) ''fn.zip'' = None
   \<and> fst (cli failing_update None empty_world) = 1"
proof -
  have pre: "loadConfig failing_update None = Inr timeout_config"
    "functionName timeout_config = Some ''fn''" "''fn'' \<noteq> []"
    "archive failing_update (source_dir timeout_config) (include_patterns timeout_config) = Inr ''PK''"
    by (simp_all add: failing_update_def run_defs example_defs)
  have zp: "zip_path timeout_config ''fn'' = ''fn.zip''"
    by (simp add: run_defs example_defs)
  have failed: "fst (deploy failing_update None empty_world) = Inl (new_Error ''Previous update failed'')"
    by (simp add: failing_update_def run_defs example_defs updateWithRetry_unfold)
  from artifact_removed[OF pre, of empty_world] failed zp show ?thesis by simp
qed

text \<open>
  Claim C9 does not hold of the source: for a configuration without a runtime the create
  path sends \<open>nodejs22.x\<close> and the configuration-update path \<open>nodejs18.x\<close>. The same
  configuration, with a role and a memory size, is deployed once against a function that
  does not exist and once against one that does.
\<close>

theorem default_runtime_drift:
  "runtime timeout_config = None
   \<and> Runtime (createParams timeout_config ''PK'') = ''nodejs22.x''
   \<and> Runtime (configParams ''fn'' timeout_config) = ''nodejs18.x''
   \<and> runtime role_config = None
   \<and> sends_of (new_events empty_world (snd (deploy absent_function_with_role None empty_world)))
       = [GetFunction ''fn'', CreateFunction (createParams role_config ''PK'')]
   \<and> Runtime (createParams role_config ''PK'') = ''nodejs22.x''
   \<and> sends_of (new_events empty_world (snd (deploy existing_function_with_role None empty_world)))
       = [GetFunction ''fn'', UpdateFunctionCode ''fn'' ''PK'', GetFunction ''fn'',
          UpdateFunctionConfiguration (configParams ''fn'' role_config)]
   \<and> Runtime (configParams ''fn'' role_config) = ''nodejs18.x''"
  by (simp add: absent_function_with_role_def existing_function_with_role_def
        createParams_def configParams_def run_defs example_defs updateWithRetry_unfold)

text \<open>
  Claim C10. In the older \<open>updateFunction\<close>, a first \<open>send\<close> whose promise is rejected, by
  a resource conflict or by anything else, is the only event of the call and its error
  is what the caller gets: no wait, no second attempt.
\<close>

theorem unawaited_send_rejection:
  assumes "files w zipPath = Some zipBuffer"
    and "respond e (trace w) (UpdateFunctionCode fn zipBuffer) = Rejected err"
  shows "updateFunction e fn zipPath w
           = (Inl err, snd (send e (UpdateFunctionCode fn zipBuffer) w))
     \<and> new_events w (snd (updateFunction e fn zipPath w))
           = [Send (UpdateFunctionCode fn zipBuffer)]"
  using assms
  by (simp add: updateFunction_def readFileSync_def send_def new_events_def)

theorem unawaited_send_rejection_witness:
  "fst (updateFunction busy_remote ''fn'' ''fn.zip'' zip_world) = Inl busy
   \<and> err_name busy = ''ResourceConflictException''
   \<and> new_events zip_world (snd (updateFunction busy_remote ''fn'' ''fn.zip'' zip_world))
        = [Send (UpdateFunctionCode ''fn'' ''PK'')]"
proof -
  have pre: "files zip_world ''fn.zip'' = Some ''PK''"
    "respond busy_remote (trace zip_world) (UpdateFunctionCode ''fn'' ''PK'') = Rejected busy"
    by (simp_all add: busy_remote_def example_defs)
  from unawaited_send_rejection[OF pre] show ?thesis
    by (simp add: busy_def send_def new_events_def zip_world_def)
qed


end
